theory Spec2Isabelle
  imports Main "HOL-Library.AList"
begin

section \<open>Data model\<close>

text \<open>
  The post actions of \<^verbatim>\<open>src/actions/plugins.ts\<close> (the part that starts with
  \<^verbatim>\<open>receivedPost\<close>) are embedded as functions over an explicit store. A JavaScript
  property that may be missing is an \<open>option\<close>; a JavaScript \<^verbatim>\<open>Set\<close> is a
  duplicate-free list in insertion order; a dictionary object whose key order is read
  (\<^verbatim>\<open>Object.values\<close>) is an association list in insertion order.
\<close>

record FileInfo =
  file_id :: string

record UserProfile =
  username :: string

record CustomEmoji =
  emoji_name :: string

datatype PostMetadata = PostMetadata "string list"

record AttachmentField =
  field_value :: "string option"

record Attachment =
  fields' :: "AttachmentField list option"
  pretext :: "string option"
  text' :: "string option"

record PostProps =
  attachments :: "Attachment list option"

text \<open>
  \<^verbatim>\<open>Post\<close>. The identifier is optional: a draft handed to \<^verbatim>\<open>createPost\<close> may
  omit it. \<^verbatim>\<open>failed\<close> is the flag the rollback of a send sets.
\<close>

record Post =
  id' :: "string option"
  pending_post_id :: "string option"
  type' :: string
  channel_id :: string
  user_id :: string
  root_id :: string
  message :: string
  file_ids :: "string list option"
  create_at :: nat
  update_at :: nat
  failed :: bool
  props :: "PostProps option"
  metadata :: "PostMetadata option"

text \<open>\<^verbatim>\<open>type ExtendedPost = Post & { system_post_ids?: string[] }\<close>\<close>

record ExtendedPost = Post +
  system_post_ids :: "string list option"

text \<open>
  A \<^verbatim>\<open>Post\<close> passed where an \<^verbatim>\<open>ExtendedPost\<close> is expected has no
  \<^verbatim>\<open>system_post_ids\<close>; an \<^verbatim>\<open>ExtendedPost\<close> passed to an action creator
  declared on \<^verbatim>\<open>Post\<close> is read through the fields of \<^verbatim>\<open>Post\<close>.
\<close>

definition asExtendedPost :: "Post \<Rightarrow> ExtendedPost" where
  "asExtendedPost p = Post.extend p (ExtendedPost.fields None)"

definition asPost :: "ExtendedPost \<Rightarrow> Post" where
  "asPost p = Post.truncate p"

record CombinedPostList =
  posts :: "(string \<times> Post) list"
  order :: "string list"
  next_post_id :: string
  prev_post_id :: string

record Error =
  server_error_id :: "string option"
  error_message :: string

text \<open>
  What a \<^verbatim>\<open>catch (error)\<close> can receive: the remote client's typed error, or the
  \<^verbatim>\<open>TypeError\<close> of a property read on \<^verbatim>\<open>undefined\<close>.
\<close>

datatype Thrown = ClientError Error | TypeError

record Reaction =
  reaction_user_id :: string
  reaction_post_id :: string
  reaction_emoji_name :: string

text \<open>
  The slice of \<^verbatim>\<open>GlobalState\<close> the post actions read. The selectors live outside
  \<^verbatim>\<open>src/\<close>; each is read here as the field it selects.
\<close>

record GlobalState =
  currentUserId :: string
  currentChannelId :: string
  posts_posts :: "string \<rightharpoonup> Post"
  pendingPostIds :: "string list"
  files_files :: "string \<rightharpoonup> FileInfo"
  profiles :: "string \<rightharpoonup> UserProfile"
  statuses :: "string \<rightharpoonup> string"
  usersByUsername :: "string \<rightharpoonup> UserProfile"
  EnableCustomEmoji :: "string option"
  customEmojisByName :: "string \<rightharpoonup> CustomEmoji"
  nonExistentEmoji :: "string list"

section \<open>JavaScript helpers\<close>

text \<open>\<^verbatim>\<open>Set.prototype.add\<close> on a set kept in insertion order.\<close>

definition set_add :: "'a \<Rightarrow> 'a list \<Rightarrow> 'a list" where
  "set_add x xs = (if x \<in> set xs then xs else xs @ [x])"

text \<open>\<^verbatim>\<open>new Set([...a, ...b])\<close>\<close>

definition set_of_list :: "'a list \<Rightarrow> 'a list" where
  "set_of_list xs = foldl (\<lambda>acc x. set_add x acc) [] xs"

text \<open>Decimal rendering of a number inside a template literal.\<close>

fun string_of_nat :: "nat \<Rightarrow> string" where
  "string_of_nat n =
     (if n < 10 then [''0123456789'' ! n]
      else string_of_nat (n div 10) @ [''0123456789'' ! (n mod 10)])"

declare string_of_nat.simps [simp del]

text \<open>JavaScript truthiness of a string that may be missing.\<close>

definition truthy :: "string option \<Rightarrow> bool" where
  "truthy v = (case v of None \<Rightarrow> False | Some s \<Rightarrow> s \<noteq> [])"

text \<open>
  The own keys of an object are enumerated with the array indices first, in ascending
  numeric order, and the other keys after them in insertion order.
\<close>

definition int_of_digits :: "string \<Rightarrow> int" where
  "int_of_digits k = foldl (\<lambda>n c. 10 * n + (of_char c - 48)) 0 k"

definition isArrayIndex :: "string \<Rightarrow> bool" where
  "isArrayIndex k =
     (k \<noteq> [] \<and> list_all (\<lambda>c. c \<in> set ''0123456789'') k
      \<and> (k = ''0'' \<or> hd k \<noteq> CHR ''0'') \<and> int_of_digits k < 4294967295)"

definition Object_entries :: "(string \<times> 'a) list \<Rightarrow> (string \<times> 'a) list" where
  "Object_entries kvs =
     sort_key (\<lambda>kv. int_of_digits (fst kv)) (filter (\<lambda>kv. isArrayIndex (fst kv)) kvs)
       @ filter (\<lambda>kv. \<not> isArrayIndex (fst kv)) kvs"

definition Object_values :: "(string \<times> 'a) list \<Rightarrow> 'a list" where
  "Object_values kvs = map snd (Object_entries kvs)"

text \<open>\<^verbatim>\<open>{...target, ...source}\<close>: a key already present keeps its place.\<close>

definition spread :: "(string \<times> 'a) list \<Rightarrow> (string \<times> 'a) list \<Rightarrow> (string \<times> 'a) list" where
  "spread target source =
     foldl (\<lambda>acc kv. AList.update (fst kv) (snd kv) acc) target (Object_entries source)"

section \<open>Actions, results and the store\<close>

text \<open>
  The request a deferred \<^verbatim>\<open>meta.offline.effect\<close> closure sends when it is run.
\<close>

datatype Effect =
    Client4_createPost Post
  | Client4_deletePost "string option"

text \<open>
  Everything that is handed to \<^verbatim>\<open>dispatch\<close>: the plain actions (named by their
  type), \<^verbatim>\<open>batchActions\<close>, an action carrying \<^verbatim>\<open>meta.offline\<close>, and the thunks
  of the sibling modules, which are kept as they are called. The
  \<^verbatim>\<open>commit\<close> and \<^verbatim>\<open>rollback\<close> of \<^verbatim>\<open>meta.offline\<close> are either a plain
  action or one of the two closures of \<^verbatim>\<open>createPost\<close>, kept with the variables
  they capture.
\<close>

datatype Action =
    RECEIVED_POST Post
  | RECEIVED_NEW_POST Post
  | RECEIVED_POSTS CombinedPostList
  | RECEIVED_POSTS_IN_CHANNEL CombinedPostList string bool bool
  | POST_DELETED Post
  | POST_REMOVED Post
  | CREATE_POST_SUCCESS
  | CREATE_POST_FAILURE Error
  | GET_POSTS_SUCCESS
  | GET_POSTS_FAILURE Thrown
  | INCREMENT_TOTAL_MSG_COUNT string nat
  | DECREMENT_UNREAD_MSG_COUNT string nat
  | RECEIVED_FILES_FOR_POST "string option" "FileInfo list"
  | RECEIVED_REACTION Reaction
  | REACTION_DELETED Reaction
  | STOP_TYPING string string nat
  | do_nothing
  | batchActions "Action list"
  | offline Action Effect Handler Handler
  | logError Thrown
  | forceLogoutIfNecessary Thrown
  | getProfilesByIds "string list"
  | getStatusesByIds "string list"
  | getProfilesByUsernames "string list"
  | getCustomEmojisByName "string list"
  | markChannelAsRead string bool
  | markChannelAsViewed string
  | markChannelAsUnread string string "string option"
and Handler =
    PlainAction Action
  | createPost_commit_closure Post "FileInfo list"
  | createPost_rollback_closure Post string

text \<open>
  What a thunk gives back: \<^verbatim>\<open>{data}\<close>, \<^verbatim>\<open>{error}\<close>, \<^verbatim>\<open>undefined\<close> when it
  ends without a \<^verbatim>\<open>return\<close> value, or an exception that escapes it.
\<close>

datatype Payload = PTrue | PPost Post | PPosts CombinedPostList

datatype Ret = Data Payload | Err Thrown | Undefined | Throws Thrown

definition isActionResult :: "Ret \<Rightarrow> bool" where
  "isActionResult r = (case r of Data d \<Rightarrow> True | Err e \<Rightarrow> True
                       | Undefined \<Rightarrow> False | Throws e \<Rightarrow> False)"

text \<open>
  The store: its current state and everything dispatched to it so far, oldest first.
\<close>

record World =
  store_state :: GlobalState
  dispatched :: "Action list"

record WebsocketMessageProps =
  team_id :: string
  mentions :: "string option"

text \<open>
  The collaborators of the module that are not under \<^verbatim>\<open>src/\<close>, taken as
  parameters: the constants \<^verbatim>\<open>General.SPECIAL_MENTIONS\<close> and
  \<^verbatim>\<open>Posts.POST_TYPES.COMBINED_USER_ACTIVITY\<close>, the table \<^verbatim>\<open>systemEmojis\<close>, the
  helpers of \<^verbatim>\<open>utils/emoji_utils\<close> and \<^verbatim>\<open>utils/post_utils\<close>, and the store's
  root reducer (what a dispatch does to the state).
\<close>

record Env =
  SPECIAL_MENTIONS :: "string list"
  COMBINED_USER_ACTIVITY :: string
  systemEmojis :: "string list"
  parseNeededCustomEmojisFromText ::
    "string \<Rightarrow> string list \<Rightarrow> (string \<rightharpoonup> CustomEmoji) \<Rightarrow> string list \<Rightarrow> string list"
  shouldIgnorePost :: "Post \<Rightarrow> bool"
  isSystemMessage :: "Post \<Rightarrow> bool"
  isFromWebhook :: "Post \<Rightarrow> bool"
  reducer :: "GlobalState \<Rightarrow> Action \<Rightarrow> GlobalState"

definition dispatch :: "Env \<Rightarrow> Action \<Rightarrow> World \<Rightarrow> World" where
  "dispatch E a w =
     \<lparr>store_state = reducer E (store_state w) a, dispatched = dispatched w @ [a]\<rparr>"

text \<open>The action creators of the module.\<close>

definition receivedPost :: "Post \<Rightarrow> Action" where
  "receivedPost post = RECEIVED_POST post"

definition receivedNewPost :: "Post \<Rightarrow> Action" where
  "receivedNewPost post = RECEIVED_NEW_POST post"

definition receivedPosts :: "CombinedPostList \<Rightarrow> Action" where
  "receivedPosts ps = RECEIVED_POSTS ps"

definition receivedPostsInChannel :: "CombinedPostList \<Rightarrow> string \<Rightarrow> bool \<Rightarrow> bool \<Rightarrow> Action" where
  "receivedPostsInChannel ps channelId recent oldest =
     RECEIVED_POSTS_IN_CHANNEL ps channelId recent oldest"

definition postRemoved :: "Post \<Rightarrow> Action" where
  "postRemoved post = POST_REMOVED post"

text \<open>
  The selectors \<^verbatim>\<open>Selectors.getPost\<close>, \<^verbatim>\<open>getCurrentUserId\<close>,
  \<^verbatim>\<open>getCurrentChannelId\<close>, \<^verbatim>\<open>getUsersByUsername\<close> and
  \<^verbatim>\<open>selectCustomEmojisByName\<close> read one field each.
\<close>

definition getPost_selector :: "GlobalState \<Rightarrow> string \<Rightarrow> Post option" where
  "getPost_selector state postId = posts_posts state postId"

text \<open>
  Modelled from the spec: \<^verbatim>\<open>Selectors.isPostIdSending\<close> (the selectors are not
  under \<^verbatim>\<open>src/\<close>). The pending-send record tracks the posts currently in flight,
  keyed by pending identifier.
\<close>

definition isPostIdSending :: "GlobalState \<Rightarrow> string \<Rightarrow> bool" where
  "isPostIdSending state pendingPostId = (pendingPostId \<in> set (pendingPostIds state))"

section \<open>Mention scanning\<close>

text \<open>
  The pattern \<^verbatim>\<open>/\B@(([a-z0-9_.-]*[a-z0-9_])[.-]*)/gi\<close>. \<open>isWordChar\<close> is the class
  \<^verbatim>\<open>[a-z0-9_]\<close> under the \<^verbatim>\<open>i\<close> flag (which is also the class \<^verbatim>\<open>\w\<close>
  that \<^verbatim>\<open>\B\<close> consults); \<open>isMentionChar\<close> is \<^verbatim>\<open>[a-z0-9_.-]\<close>.
\<close>

definition isWordChar :: "char \<Rightarrow> bool" where
  "isWordChar c =
     (c \<in> set ''abcdefghijklmnopqrstuvwxyzABCDEFGHIJKLMNOPQRSTUVWXYZ0123456789_'')"

definition isMentionChar :: "char \<Rightarrow> bool" where
  "isMentionChar c = (isWordChar c \<or> c = CHR ''.'' \<or> c = CHR ''-'')"

text \<open>
  The \<^verbatim>\<open>while ((match = pattern.exec(message)) !== null)\<close> loop: every match of the
  pattern from left to right, as the pair (\<^verbatim>\<open>match[1]\<close>, \<^verbatim>\<open>match[2]\<close>).
  \<open>prevWord\<close> tells whether the character before the current position is a word
  character (false at the start of the message), which is what \<^verbatim>\<open>\B\<close> before the
  non-word character \<^verbatim>\<open>@\<close> asks. After an \<^verbatim>\<open>@\<close> the greedy
  \<^verbatim>\<open>[a-z0-9_.-]*\<close> takes the longest run of mention characters and backtracks to
  its last word character: \<^verbatim>\<open>match[2]\<close> is the run without its trailing dots and
  dashes, \<^verbatim>\<open>match[1]\<close> the whole run. A run without a word character is no match,
  and the search goes on behind the \<^verbatim>\<open>@\<close>; after a match it goes on behind the run.
\<close>

definition dropTrailing :: "(char \<Rightarrow> bool) \<Rightarrow> string \<Rightarrow> string" where
  "dropTrailing P xs = rev (dropWhile P (rev xs))"

function execAll :: "bool \<Rightarrow> string \<Rightarrow> (string \<times> string) list" where
  "execAll prevWord [] = []"
| "execAll prevWord (c # cs) =
     (if c = CHR ''@'' \<and> \<not> prevWord then
        (let run = takeWhile isMentionChar cs in
         if list_ex isWordChar run then
           (run, dropTrailing (\<lambda>x. \<not> isWordChar x) run)
             # execAll (isWordChar (last run)) (dropWhile isMentionChar cs)
         else execAll False cs)
      else execAll (isWordChar c) cs)"
  by pat_completeness auto
termination
  by (relation "measure (\<lambda>(p, s). length s)")
     (auto simp: less_Suc_eq_le length_dropWhile_le)

text \<open>
  \<^verbatim>\<open>usersByUsername\<close> is a \<^verbatim>\<open>Dictionary<UserProfile>\<close>, a plain object. The
  test \<^verbatim>\<open>usersByUsername[name]\<close> reads the profile stored under \<open>name\<close>; for a
  name that is not a key of the dictionary the read falls through to
  \<^verbatim>\<open>Object.prototype\<close>, whose properties are functions and objects, all truthy.
  The names here come from the text of a message. (The other dictionaries of the module
  are read at ids that the server issues.)
\<close>

definition objectPrototypeKeys :: "string list" where
  "objectPrototypeKeys =
     [''constructor'', ''__defineGetter__'', ''__defineSetter__'', ''hasOwnProperty'',
      ''__lookupGetter__'', ''__lookupSetter__'', ''isPrototypeOf'',
      ''propertyIsEnumerable'', ''toString'', ''valueOf'', ''__proto__'',
      ''toLocaleString'']"

definition dictionaryTruthy :: "(string \<rightharpoonup> 'a) \<Rightarrow> string \<Rightarrow> bool" where
  "dictionaryTruthy d k = (d k \<noteq> None \<or> k \<in> set objectPrototypeKeys)"

text \<open>
  \<^verbatim>\<open>getNeededAtMentionedUsernames(state, posts)\<close>: \<open>scanMatch\<close> is the body of
  the \<^verbatim>\<open>while\<close> loop, \<open>scanPost\<close> the body of \<^verbatim>\<open>posts.forEach\<close>.
\<close>

definition scanMatch ::
  "Env \<Rightarrow> (string \<rightharpoonup> UserProfile) \<Rightarrow> string list \<Rightarrow> string \<times> string \<Rightarrow> string list" where
  "scanMatch E users usernamesToLoad m =
     (if snd m \<in> set (SPECIAL_MENTIONS E) then usernamesToLoad
      else if dictionaryTruthy users (fst m) \<or> dictionaryTruthy users (snd m)
      then usernamesToLoad
      else set_add (snd m) (set_add (fst m) usernamesToLoad))"

definition scanPost :: "Env \<Rightarrow> GlobalState \<Rightarrow> string list \<Rightarrow> Post \<Rightarrow> string list" where
  "scanPost E state usernamesToLoad post =
     (if CHR ''@'' \<notin> set (message post) then usernamesToLoad
      else foldl (scanMatch E (usersByUsername state)) usernamesToLoad
             (execAll False (message post)))"

definition getNeededAtMentionedUsernames :: "Env \<Rightarrow> GlobalState \<Rightarrow> Post list \<Rightarrow> string list" where
  "getNeededAtMentionedUsernames E state posts' = foldl (scanPost E state) [] posts'"

section \<open>Emoji scanning\<close>

text \<open>\<^verbatim>\<open>buildPostAttachmentText(attachments)\<close>\<close>

definition appendIfTruthy :: "string \<Rightarrow> string option \<Rightarrow> string" where
  "appendIfTruthy attachmentText v =
     (case v of None \<Rightarrow> attachmentText
      | Some s \<Rightarrow> if s = [] then attachmentText else attachmentText @ '' '' @ s)"

definition appendField :: "string \<Rightarrow> AttachmentField \<Rightarrow> string" where
  "appendField attachmentText f =
     attachmentText @ '' '' @ (case field_value f of None \<Rightarrow> [] | Some v \<Rightarrow> v)"

definition appendAttachment :: "string \<Rightarrow> Attachment \<Rightarrow> string" where
  "appendAttachment attachmentText a =
     (let t1 = (case fields' a of
                  None \<Rightarrow> attachmentText
                | Some fs \<Rightarrow> if fs \<noteq> [] then foldl appendField attachmentText fs
                             else attachmentText)
      in appendIfTruthy (appendIfTruthy t1 (pretext a)) (text' a))"

definition buildPostAttachmentText :: "Attachment list \<Rightarrow> string" where
  "buildPostAttachmentText atts = foldl appendAttachment [] atts"

text \<open>
  The call \<^verbatim>\<open>parseNeededCustomEmojisFromText(text, systemEmojis, customEmojisByName,
  nonExistentEmoji)\<close> followed by the merge into \<^verbatim>\<open>customEmojisToLoad\<close> when the
  parse found a name.
\<close>

definition addEmojisFromText :: "Env \<Rightarrow> GlobalState \<Rightarrow> string list \<Rightarrow> string \<Rightarrow> string list" where
  "addEmojisFromText E state customEmojisToLoad txt =
     (let found = parseNeededCustomEmojisFromText E txt (systemEmojis E)
                    (customEmojisByName state) (nonExistentEmoji state)
      in if found \<noteq> [] then set_of_list (customEmojisToLoad @ found)
         else customEmojisToLoad)"

text \<open>The body of \<^verbatim>\<open>posts.forEach\<close> in \<^verbatim>\<open>getNeededCustomEmojis\<close>.\<close>

definition scanPostEmojis :: "Env \<Rightarrow> GlobalState \<Rightarrow> string list \<Rightarrow> Post \<Rightarrow> string list" where
  "scanPostEmojis E state customEmojisToLoad post =
     (let fromMessage =
            (if CHR '':'' \<in> set (message post)
             then addEmojisFromText E state customEmojisToLoad (message post)
             else customEmojisToLoad)
      in case props post of
           None \<Rightarrow> fromMessage
         | Some pr \<Rightarrow>
             (case attachments pr of
                None \<Rightarrow> fromMessage
              | Some atts \<Rightarrow>
                  if atts \<noteq> [] then
                    (let attachmentText = buildPostAttachmentText atts
                     in if attachmentText \<noteq> []
                        then addEmojisFromText E state fromMessage attachmentText
                        else fromMessage)
                  else fromMessage))"

text \<open>
  \<^verbatim>\<open>getNeededCustomEmojis(state, posts)\<close>. \<open>None\<close> is the \<^verbatim>\<open>TypeError\<close> of
  \<^verbatim>\<open>posts[0].metadata\<close> on an empty array.
\<close>

definition getNeededCustomEmojis :: "Env \<Rightarrow> GlobalState \<Rightarrow> Post list \<Rightarrow> string list option" where
  "getNeededCustomEmojis E state posts' =
     (if EnableCustomEmoji state \<noteq> Some ''true'' then Some []
      else case posts' of
             [] \<Rightarrow> None
           | first # rest \<Rightarrow>
               if metadata first \<noteq> None then Some []
               else Some (foldl (scanPostEmojis E state) [] posts'))"

section \<open>The dependency prefetcher\<close>

text \<open>
  The argument of \<^verbatim>\<open>getProfilesAndStatusesForPosts\<close>: \<^verbatim>\<open>null\<close> or
  \<^verbatim>\<open>undefined\<close>, an array of posts, or a map of ids to posts.
\<close>

datatype PostsArrayOrMap =
    Missing
  | PostArray "Post list"
  | PostMap "(string \<times> Post) list"

text \<open>The first \<^verbatim>\<open>forEach\<close>: the pair (\<open>userIdsToLoad\<close>, \<open>statusesToLoad\<close>).\<close>

definition scanAuthor ::
  "GlobalState \<Rightarrow> string list \<times> string list \<Rightarrow> Post \<Rightarrow> string list \<times> string list" where
  "scanAuthor state acc post =
     (let userId = user_id post;
          statusesToLoad = (if \<not> truthy (statuses state userId) then set_add userId (snd acc)
                            else snd acc)
      in if userId = currentUserId state then (fst acc, statusesToLoad)
         else if profiles state userId = None then (set_add userId (fst acc), statusesToLoad)
         else (fst acc, statusesToLoad))"

text \<open>
  \<^verbatim>\<open>getProfilesAndStatusesForPosts(postsArrayOrMap, dispatch, getState)\<close>. The
  result is the exception that escapes the call, if any, and the store afterwards. The
  four fetch thunks are started in the order of the source.
\<close>

definition dispatchIf :: "Env \<Rightarrow> bool \<Rightarrow> Action \<Rightarrow> World \<Rightarrow> World" where
  "dispatchIf E c a w = (if c then dispatch E a w else w)"

definition getProfilesAndStatusesForPosts ::
  "Env \<Rightarrow> PostsArrayOrMap \<Rightarrow> World \<Rightarrow> Thrown option \<times> World" where
  "getProfilesAndStatusesForPosts E postsArrayOrMap w =
     (case postsArrayOrMap of
        Missing \<Rightarrow> (None, w)
      | _ \<Rightarrow>
        (let posts' = (case postsArrayOrMap of
                         PostArray ps \<Rightarrow> ps
                       | PostMap m \<Rightarrow> Object_values m
                       | Missing \<Rightarrow> [])
         in if posts' = [] then (None, w)
            else
              (let state = store_state w;
                   toLoad = foldl (scanAuthor state) ([], []) posts';
                   w1 = dispatchIf E (fst toLoad \<noteq> []) (getProfilesByIds (fst toLoad)) w;
                   w2 = dispatchIf E (snd toLoad \<noteq> []) (getStatusesByIds (snd toLoad)) w1;
                   usernamesToLoad = getNeededAtMentionedUsernames E state posts';
                   w3 = dispatchIf E (usernamesToLoad \<noteq> [])
                          (getProfilesByUsernames usernamesToLoad) w2
               in case getNeededCustomEmojis E state posts' of
                    None \<Rightarrow> (Some TypeError, w3)
                  | Some emojisToLoad \<Rightarrow>
                      (None, dispatchIf E (emojisToLoad \<noteq> [])
                               (getCustomEmojisByName emojisToLoad) w3))))"

section \<open>The fetch family\<close>

text \<open>
  A request to the remote client settles at some moment, with the client's error or
  with its payload.
\<close>

type_synonym 'a Response = "nat \<times> (Error + 'a)"

text \<open>
  \<^verbatim>\<open>Promise.all\<close> of three requests: it rejects with the error of the request
  that was rejected first, and otherwise resolves with the three payloads.
\<close>

fun earliest :: "nat \<times> Error \<Rightarrow> (nat \<times> Error) list \<Rightarrow> Error" where
  "earliest best [] = snd best"
| "earliest best (r # rs) = (if fst r < fst best then earliest r rs else earliest best rs)"

definition rejection :: "'a Response \<Rightarrow> (nat \<times> Error) list" where
  "rejection r = (case snd r of Inl e \<Rightarrow> [(fst r, e)] | Inr v \<Rightarrow> [])"

definition Promise_all3 ::
  "'a Response \<Rightarrow> 'b Response \<Rightarrow> 'c Response \<Rightarrow> Error + ('a \<times> 'b \<times> 'c)" where
  "Promise_all3 a b c =
     (case snd a of
        Inl e \<Rightarrow> Inl (earliest (fst a, e) (rejection b @ rejection c))
      | Inr x \<Rightarrow>
          (case snd b of
             Inl e \<Rightarrow> Inl (earliest (fst b, e) (rejection c))
           | Inr y \<Rightarrow>
               (case snd c of
                  Inl e \<Rightarrow> Inl e
                | Inr z \<Rightarrow> Inr (x, y, z))))"

text \<open>
  \<^verbatim>\<open>getPostsAround(channelId, postId, perPage, fetchThreads)\<close>, given how the three
  requests \<^verbatim>\<open>Client4.getPostsAfter\<close>, \<^verbatim>\<open>Client4.getPostThread\<close> and
  \<^verbatim>\<open>Client4.getPostsBefore\<close> settle.
\<close>

definition getPostsAround ::
  "Env \<Rightarrow> string \<Rightarrow> string \<Rightarrow> CombinedPostList Response \<Rightarrow> CombinedPostList Response
     \<Rightarrow> CombinedPostList Response \<Rightarrow> World \<Rightarrow> Ret \<times> World" where
  "getPostsAround E channelId postId afterR threadR beforeR w =
     (case Promise_all3 afterR threadR beforeR of
        Inl error \<Rightarrow>
          (let w1 = dispatch E (forceLogoutIfNecessary (ClientError error)) w;
               w2 = dispatch E (logError (ClientError error)) w1
           in (Err (ClientError error), w2))
      | Inr (after, thread, before) \<Rightarrow>
          (let posts' = \<lparr>posts = spread (spread (spread [] (posts after)) (posts thread))
                                    (posts before),
                         order = order after @ [postId] @ order before,
                         next_post_id = next_post_id after,
                         prev_post_id = prev_post_id before\<rparr>;
               pre = getProfilesAndStatusesForPosts E (PostMap (posts posts')) w
           in case fst pre of
                Some e \<Rightarrow> (Throws e, snd pre)
              | None \<Rightarrow>
                  (Data (PPosts posts'),
                   dispatch E (batchActions
                     [receivedPosts posts',
                      receivedPostsInChannel posts' channelId
                        (next_post_id after = []) (prev_post_id before = [])]) (snd pre))))"

text \<open>\<^verbatim>\<open>getPost(postId)\<close>, given how \<^verbatim>\<open>Client4.getPost\<close> settles.\<close>

definition getPost_failure :: "Env \<Rightarrow> Thrown \<Rightarrow> World \<Rightarrow> Ret \<times> World" where
  "getPost_failure E error w =
     (let w1 = dispatch E (forceLogoutIfNecessary error) w
      in (Err error, dispatch E (batchActions [GET_POSTS_FAILURE error, logError error]) w1))"

definition getPost :: "Env \<Rightarrow> string \<Rightarrow> Error + Post \<Rightarrow> World \<Rightarrow> Ret \<times> World" where
  "getPost E postId response w =
     (case response of
        Inl error \<Rightarrow> getPost_failure E (ClientError error) w
      | Inr post \<Rightarrow>
          (let pre = getProfilesAndStatusesForPosts E (PostArray [post]) w
           in case fst pre of
                Some e \<Rightarrow> getPost_failure E e (snd pre)
              | None \<Rightarrow>
                  (Data (PPost post),
                   dispatch E (batchActions [receivedPost post, GET_POSTS_SUCCESS]) (snd pre))))"

section \<open>Reactions\<close>

definition addReaction :: "Env \<Rightarrow> string \<Rightarrow> string \<Rightarrow> Error + Reaction \<Rightarrow> World \<Rightarrow> Ret \<times> World" where
  "addReaction E postId emojiName response w =
     (case response of
        Inl error \<Rightarrow>
          (let w1 = dispatch E (forceLogoutIfNecessary (ClientError error)) w
           in (Err (ClientError error), dispatch E (logError (ClientError error)) w1))
      | Inr reaction \<Rightarrow> (Data PTrue, dispatch E (RECEIVED_REACTION reaction) w))"

definition removeReaction :: "Env \<Rightarrow> string \<Rightarrow> string \<Rightarrow> Error + unit \<Rightarrow> World \<Rightarrow> Ret \<times> World" where
  "removeReaction E postId emojiName response w =
     (let currentUserId = currentUserId (store_state w)
      in case response of
        Inl error \<Rightarrow>
          (let w1 = dispatch E (forceLogoutIfNecessary (ClientError error)) w
           in (Err (ClientError error), dispatch E (logError (ClientError error)) w1))
      | Inr ack \<Rightarrow>
          (Data PTrue,
           dispatch E (REACTION_DELETED \<lparr>reaction_user_id = currentUserId,
                         reaction_post_id = postId, reaction_emoji_name = emojiName\<rparr>) w))"

section \<open>Deleting and removing posts\<close>

text \<open>
  The test \<^verbatim>\<open>post.type === Posts.POST_TYPES.COMBINED_USER_ACTIVITY &&
  post.system_post_ids\<close>: the member ids when it holds (an array is truthy even when
  empty), \<open>None\<close> when it does not.
\<close>

definition memberIds :: "Env \<Rightarrow> ExtendedPost \<Rightarrow> string list option" where
  "memberIds E post =
     (if type' post = COMBINED_USER_ACTIVITY E then system_post_ids post else None)"

lemma memberIds_asExtendedPost: "memberIds E (asExtendedPost p) = None"
  by (simp add: memberIds_def asExtendedPost_def Post.extend_def ExtendedPost.fields_def)

text \<open>
  The action of the \<^verbatim>\<open>else\<close> branch of \<^verbatim>\<open>deletePost\<close>: \<^verbatim>\<open>POST_DELETED\<close>
  with the copy of the post, the effect \<^verbatim>\<open>Client4.deletePost(post.id)\<close>, the
  commit \<^verbatim>\<open>{type: 'do_nothing'}\<close> and the rollback \<^verbatim>\<open>receivedPost(delPost)\<close>.
\<close>

definition deleteOffline :: "ExtendedPost \<Rightarrow> Action" where
  "deleteOffline post =
     (let delPost = post
      in offline (POST_DELETED (asPost delPost))
           (Client4_deletePost (id' post))
           (PlainAction do_nothing)
           (PlainAction (receivedPost (asPost delPost))))"

text \<open>
  \<^verbatim>\<open>deletePost(post)\<close>. Dispatching the thunk \<^verbatim>\<open>deletePost(systemPost)\<close> runs
  it on the store as the dispatches before it left it; the lookups of the loop read the
  state captured on entry.
\<close>

function deletePost :: "Env \<Rightarrow> ExtendedPost \<Rightarrow> World \<Rightarrow> Ret \<times> World" where
  "deletePost E post w =
     (let state = store_state w
      in (Data PTrue,
          (case memberIds E post of
             Some ids \<Rightarrow>
               foldl (\<lambda>w' systemPostId.
                        case getPost_selector state systemPostId of
                          None \<Rightarrow> w'
                        | Some systemPost \<Rightarrow> snd (deletePost E (asExtendedPost systemPost) w'))
                     w ids
           | None \<Rightarrow> dispatch E (deleteOffline post) w)))"
  by pat_completeness auto
termination
  by (relation "measure (\<lambda>(E, p, w). if memberIds E p = None then 0 else 1)")
     (auto simp: memberIds_asExtendedPost)

text \<open>\<^verbatim>\<open>removePost(post)\<close>: the thunk has no \<^verbatim>\<open>return\<close> statement.\<close>

function removePost :: "Env \<Rightarrow> ExtendedPost \<Rightarrow> World \<Rightarrow> Ret \<times> World" where
  "removePost E post w =
     (Undefined,
      (case memberIds E post of
         Some ids \<Rightarrow>
           (let state = store_state w
            in foldl (\<lambda>w' systemPostId.
                        case getPost_selector state systemPostId of
                          None \<Rightarrow> w'
                        | Some systemPost \<Rightarrow> snd (removePost E (asExtendedPost systemPost) w'))
                     w ids)
       | None \<Rightarrow> dispatch E (postRemoved (asPost post)) w))"
  by pat_completeness auto
termination
  by (relation "measure (\<lambda>(E, p, w). if memberIds E p = None then 0 else 1)")
     (auto simp: memberIds_asExtendedPost)

declare deletePost.simps [simp del] removePost.simps [simp del]

section \<open>Creating a post\<close>

text \<open>
  \<^verbatim>\<open>post.pending_post_id || `${currentUserId}:${timestamp}`\<close>: a missing or empty
  \<^verbatim>\<open>pending_post_id\<close> is falsy.
\<close>

definition pendingPostIdOf :: "string \<Rightarrow> nat \<Rightarrow> Post \<Rightarrow> string" where
  "pendingPostIdOf userId timestamp post =
     (case pending_post_id post of
        None \<Rightarrow> userId @ '':'' @ string_of_nat timestamp
      | Some p \<Rightarrow> if p = [] then userId @ '':'' @ string_of_nat timestamp else p)"

text \<open>
  The files of the send. A retry of a pending post that had files
  (\<^verbatim>\<open>newPost.file_ids && !files.length\<close>) looks them up in the store, where an id
  that is not cached gives \<^verbatim>\<open>undefined\<close>.
\<close>

definition filesOfSend :: "GlobalState \<Rightarrow> Post \<Rightarrow> FileInfo list \<Rightarrow> FileInfo option list" where
  "filesOfSend state newPost files =
     (case file_ids newPost of
        Some ids \<Rightarrow> if files = [] then map (files_files state) ids else map Some files
      | None \<Rightarrow> map Some files)"

text \<open>
  The optimistic action: \<^verbatim>\<open>data: {id: pendingPostId, ...newPost}\<close> (an
  \<^verbatim>\<open>id\<close> of the draft overrides the pending one), the effect
  \<^verbatim>\<open>Client4.createPost({...newPost, create_at: 0})\<close>, and the two closures.
\<close>

definition optimisticPost :: "Post \<Rightarrow> string \<Rightarrow> FileInfo list \<Rightarrow> Action" where
  "optimisticPost newPost pendingPostId files =
     offline
       (RECEIVED_NEW_POST
          (newPost\<lparr>id' := (case id' newPost of None \<Rightarrow> Some pendingPostId | Some i \<Rightarrow> Some i)\<rparr>))
       (Client4_createPost (newPost\<lparr>create_at := 0\<rparr>))
       (createPost_commit_closure newPost files)
       (createPost_rollback_closure newPost pendingPostId)"

text \<open>
  \<^verbatim>\<open>createPost(post, files)\<close>; \<open>timestamp\<close> is the \<^verbatim>\<open>Date.now()\<close> of the call.
  Reading \<^verbatim>\<open>file.id\<close> of a file that the store does not hold throws.
\<close>

definition createPost :: "Env \<Rightarrow> Post \<Rightarrow> FileInfo list \<Rightarrow> nat \<Rightarrow> World \<Rightarrow> Ret \<times> World" where
  "createPost E post files timestamp w =
     (let state = store_state w;
          pendingPostId = pendingPostIdOf (currentUserId state) timestamp post
      in if isPostIdSending state pendingPostId then (Data PTrue, w)
         else
           (let newPost = post\<lparr>pending_post_id := Some pendingPostId,
                               create_at := timestamp, update_at := timestamp\<rparr>;
                files' = filesOfSend state newPost files
            in if files' \<noteq> [] then
                 (case those files' of
                    None \<Rightarrow> (Throws TypeError, w)
                  | Some fs \<Rightarrow>
                      (let newPost' = newPost\<lparr>file_ids := Some (map file_id fs)\<rparr>;
                           w1 = dispatch E (RECEIVED_FILES_FOR_POST (Some pendingPostId) fs) w
                       in (Data PTrue, dispatch E (optimisticPost newPost' pendingPostId fs) w1)))
               else (Data PTrue, dispatch E (optimisticPost newPost pendingPostId []) w)))"

text \<open>
  The \<^verbatim>\<open>commit\<close> closure, run with the payload of the server's answer.
\<close>

definition createPost_commit :: "Env \<Rightarrow> Post \<Rightarrow> FileInfo list \<Rightarrow> Post \<Rightarrow> World \<Rightarrow> World" where
  "createPost_commit E newPost files payload w =
     dispatch E (batchActions
       [receivedPost payload,
        CREATE_POST_SUCCESS,
        INCREMENT_TOTAL_MSG_COUNT (channel_id newPost) 1,
        DECREMENT_UNREAD_MSG_COUNT (channel_id newPost) 1,
        RECEIVED_FILES_FOR_POST (id' payload) files]) w"




section \<open>Inbound posts\<close>

text \<open>\<^verbatim>\<open>lastPostActions(post, websocketMessageProps)\<close>; \<open>now\<close> is its \<^verbatim>\<open>Date.now()\<close>.\<close>

definition lastPostActions ::
  "Env \<Rightarrow> Post \<Rightarrow> WebsocketMessageProps \<Rightarrow> nat \<Rightarrow> World \<Rightarrow> Ret \<times> World" where
  "lastPostActions E post websocketMessageProps now w =
     (let state = store_state w;
          actions = [receivedNewPost post,
                     STOP_TYPING (channel_id post @ root_id post) (user_id post) now];
          w1 = dispatch E (batchActions actions) w
      in if shouldIgnorePost E post then (Undefined, w1)
         else
           (let marks =
                  (if user_id post = currentUserId state
                      \<and> \<not> isSystemMessage E post \<and> \<not> isFromWebhook E post
                   then (True, False)
                   else if channel_id post = currentChannelId state then (True, True)
                   else (False, False));
                markAsRead = fst marks;
                markAsReadOnServer = snd marks
            in if markAsRead then
                 (Undefined,
                  dispatch E (markChannelAsViewed (channel_id post))
                    (dispatch E (markChannelAsRead (channel_id post) markAsReadOnServer) w1))
               else
                 (Undefined,
                  dispatch E (markChannelAsUnread (team_id websocketMessageProps)
                                (channel_id post) (mentions websocketMessageProps)) w1)))"

section \<open>Collaborators modelled from the spec\<close>

text \<open>
  Modelled from the spec: \<^verbatim>\<open>parseNeededCustomEmojisFromText\<close> of
  \<^verbatim>\<open>utils/emoji_utils\<close>, which is not under \<^verbatim>\<open>src/\<close>. The custom emoji names
  referenced via \<^verbatim>\<open>:name:\<close> syntax that are neither built-in, already cached, nor
  previously confirmed non-existent.
\<close>

definition isEmojiChar :: "char \<Rightarrow> bool" where
  "isEmojiChar c = (isWordChar c \<or> c = CHR ''-'')"

function emojiNames :: "string \<Rightarrow> string list" where
  "emojiNames [] = []"
| "emojiNames (c # cs) =
     (if c = CHR '':'' then
        (let run = takeWhile isEmojiChar cs; rest = dropWhile isEmojiChar cs
         in case rest of
              [] \<Rightarrow> emojiNames cs
            | d # ds \<Rightarrow> if run \<noteq> [] \<and> d = CHR '':'' then run # emojiNames ds
                        else emojiNames cs)
      else emojiNames cs)"
  by pat_completeness auto
termination
proof (relation "measure length")
  fix c :: char and cs x xa :: string and x21 :: char and x22 :: string
  assume "xa = dropWhile isEmojiChar cs" "xa = x21 # x22"
  then have "length (x21 # x22) \<le> length cs"
    using length_dropWhile_le [of isEmojiChar cs] by simp
  then show "(x22, c # cs) \<in> measure length" by simp
qed auto

definition parseModel ::
  "string \<Rightarrow> string list \<Rightarrow> (string \<rightharpoonup> CustomEmoji) \<Rightarrow> string list \<Rightarrow> string list" where
  "parseModel txt system custom nonExistent =
     foldl (\<lambda>acc name.
              if name \<in> set system \<or> name \<in> set nonExistent \<or> custom name \<noteq> None then acc
              else set_add name acc)
           [] (emojiNames txt)"

text \<open>
  Modelled from the spec: the reducer of the Normalized Post Store (the reducers are
  not under \<^verbatim>\<open>src/\<close>), a keyed mapping from post identifier to post record. A
  received post is stored under its identifier, a removed post is deleted from the
  mapping, a batch is reduced action by action, and an action carrying
  \<^verbatim>\<open>meta.offline\<close> is reduced as the action it is.
\<close>

fun postsReducer :: "GlobalState \<Rightarrow> Action \<Rightarrow> GlobalState" where
  "postsReducer s (RECEIVED_POST p) =
     (case id' p of None \<Rightarrow> s | Some i \<Rightarrow> s\<lparr>posts_posts := (posts_posts s)(i \<mapsto> p)\<rparr>)"
| "postsReducer s (RECEIVED_NEW_POST p) =
     (case id' p of None \<Rightarrow> s | Some i \<Rightarrow> s\<lparr>posts_posts := (posts_posts s)(i \<mapsto> p)\<rparr>)"
| "postsReducer s (POST_REMOVED p) =
     (case id' p of None \<Rightarrow> s | Some i \<Rightarrow> s\<lparr>posts_posts := (posts_posts s)(i := None)\<rparr>)"
| "postsReducer s (batchActions as) = foldl (\<lambda>st a. postsReducer st a) s as"
| "postsReducer s (offline a eff commit rollback) = postsReducer s a"
| "postsReducer s a = s"

text \<open>
  Modelled from the spec: stand-ins for the constants and the helpers of
  \<^verbatim>\<open>utils/post_utils\<close> (reserved mention tokens such as \<^verbatim>\<open>@all\<close> and
  \<^verbatim>\<open>@channel\<close>; a system message; a post from an automated integration; the
  ignore predicate), used where a theorem is run on a concrete input.
\<close>

definition hasPrefix :: "string \<Rightarrow> string \<Rightarrow> bool" where
  "hasPrefix pre s = (take (length pre) s = pre)"

definition modelEnv :: Env where
  "modelEnv =
     \<lparr>SPECIAL_MENTIONS = [''all'', ''channel'', ''here''],
      COMBINED_USER_ACTIVITY = ''system_combined_user_activity'',
      systemEmojis = [''smile''],
      parseNeededCustomEmojisFromText = parseModel,
      shouldIgnorePost = (\<lambda>p. type' p = ''system_channel_deleted''),
      isSystemMessage = (\<lambda>p. hasPrefix ''system_'' (type' p)),
      isFromWebhook = (\<lambda>p. hasPrefix ''webhook_'' (type' p)),
      reducer = postsReducer\<rparr>"

text \<open>Concrete inputs for running the theorems.\<close>

definition emptyState :: GlobalState where
  "emptyState =
     \<lparr>currentUserId = ''me'', currentChannelId = ''town'',
      posts_posts = Map.empty, pendingPostIds = [], files_files = Map.empty,
      profiles = Map.empty, statuses = Map.empty, usersByUsername = Map.empty,
      EnableCustomEmoji = Some ''true'', customEmojisByName = Map.empty,
      nonExistentEmoji = []\<rparr>"

definition mkPost :: "string \<Rightarrow> string \<Rightarrow> string \<Rightarrow> Post" where
  "mkPost i u m =
     \<lparr>id' = Some i, pending_post_id = None, type' = [], channel_id = ''town'',
      user_id = u, root_id = [], message = m, file_ids = None, create_at = 0,
      update_at = 0, failed = False, props = None, metadata = None\<rparr>"

definition world :: "GlobalState \<Rightarrow> World" where
  "world s = \<lparr>store_state = s, dispatched = []\<rparr>"

section \<open>Reading what was dispatched\<close>

text \<open>
  A receipt action carries posts into the store, on its own, inside a batch or under
  \<^verbatim>\<open>meta.offline\<close>.
\<close>

fun isReceipt :: "Action \<Rightarrow> bool" where
  "isReceipt (RECEIVED_POST p) = True"
| "isReceipt (RECEIVED_NEW_POST p) = True"
| "isReceipt (RECEIVED_POSTS ps) = True"
| "isReceipt (RECEIVED_POSTS_IN_CHANNEL ps c r ol) = True"
| "isReceipt (batchActions as) = list_ex isReceipt as"
| "isReceipt (offline a eff commit rollback) = isReceipt a"
| "isReceipt a = False"

text \<open>The requests that the dispatched actions queue as their offline effects.\<close>

fun effectsOf :: "Action \<Rightarrow> Effect list" where
  "effectsOf (offline a eff commit rollback) = [eff]"
| "effectsOf (batchActions as) = concat (map effectsOf as)"
| "effectsOf a = []"

fun deletedId :: "Effect \<Rightarrow> string option list" where
  "deletedId (Client4_deletePost i) = [i]"
| "deletedId eff = []"

definition deleteRequests :: "Action list \<Rightarrow> string option list" where
  "deleteRequests as = concat (map deletedId (concat (map effectsOf as)))"

text \<open>The posts that \<^verbatim>\<open>POST_REMOVED\<close> actions name, in the order dispatched.\<close>

fun removedPost :: "Action \<Rightarrow> Post list" where
  "removedPost (POST_REMOVED p) = [p]"
| "removedPost a = []"

text \<open>What a call added to the list of dispatched actions.\<close>

definition newlyDispatched :: "World \<Rightarrow> World \<Rightarrow> Action list" where
  "newlyDispatched w w' = drop (length (dispatched w)) (dispatched w')"

text \<open>More concrete inputs: a page of posts and a client error.\<close>

definition page :: "string list \<Rightarrow> CombinedPostList" where
  "page ids = \<lparr>posts = map (\<lambda>i. (i, mkPost i ''bob'' ''hello'')) ids, order = ids,
               next_post_id = [], prev_post_id = []\<rparr>"

definition boom :: Error where
  "boom = \<lparr>server_error_id = Some ''api.context.session_expired'', error_message = ''x''\<rparr>"

text \<open>
  A match that the loop asks for: its trimmed form is not a reserved mention and
  neither of its forms reads as truthy in \<^verbatim>\<open>usersByUsername\<close>.
\<close>

definition wanted :: "Env \<Rightarrow> GlobalState \<Rightarrow> string \<times> string \<Rightarrow> bool" where
  "wanted E s m = (snd m \<notin> set (SPECIAL_MENTIONS E)
                   \<and> \<not> dictionaryTruthy (usersByUsername s) (fst m)
                   \<and> \<not> dictionaryTruthy (usersByUsername s) (snd m))"

text \<open>
  The matches of the pattern, said position by position, to compare the scanner with.
  A mention starts at position \<open>i\<close> of the message when the character there is
  \<^verbatim>\<open>@\<close>, the character before it is not a word character (at position 0: the
  message does not continue a word, \<open>prevWord\<close> is false), and the run of mention
  characters behind the \<^verbatim>\<open>@\<close> holds a word character. The match is that run,
  paired with the run without its trailing dots and dashes. The matches of a message
  are those of its positions from left to right.
\<close>

definition mentionRun :: "string \<Rightarrow> nat \<Rightarrow> string" where
  "mentionRun msg i = takeWhile isMentionChar (drop (Suc i) msg)"

definition isMentionStart :: "bool \<Rightarrow> string \<Rightarrow> nat \<Rightarrow> bool" where
  "isMentionStart prevWord msg i =
     (msg ! i = CHR ''@''
      \<and> \<not> (if i = 0 then prevWord else isWordChar (msg ! (i - 1)))
      \<and> list_ex isWordChar (mentionRun msg i))"

definition matchAt :: "bool \<Rightarrow> string \<Rightarrow> nat \<Rightarrow> (string \<times> string) list" where
  "matchAt prevWord msg i =
     (if isMentionStart prevWord msg i
      then [(mentionRun msg i, dropTrailing (\<lambda>x. \<not> isWordChar x) (mentionRun msg i))]
      else [])"

definition mentionMatches :: "bool \<Rightarrow> string \<Rightarrow> (string \<times> string) list" where
  "mentionMatches prevWord msg = concat (map (matchAt prevWord msg) [0..<length msg])"

text \<open>
  What one post contributes to the emoji demand set, said without the loop: the names
  the parser finds in the message when it holds a colon, and the names it finds in the
  text of the attachments when that text is not empty. The text of the attachments is,
  attachment by attachment, a space and the value of every field, a space and the
  pretext when there is one, a space and the text when there is one.
\<close>

definition attachmentText :: "Attachment \<Rightarrow> string" where
  "attachmentText a =
     (case fields' a of
        None \<Rightarrow> []
      | Some fs \<Rightarrow> concat (map (\<lambda>f. '' '' @ (case field_value f of None \<Rightarrow> [] | Some v \<Rightarrow> v)) fs))
     @ (case pretext a of None \<Rightarrow> [] | Some t \<Rightarrow> if t = [] then [] else '' '' @ t)
     @ (case text' a of None \<Rightarrow> [] | Some t \<Rightarrow> if t = [] then [] else '' '' @ t)"

definition parsedNames :: "Env \<Rightarrow> GlobalState \<Rightarrow> string \<Rightarrow> string set" where
  "parsedNames E s txt =
     set (parseNeededCustomEmojisFromText E txt (systemEmojis E)
            (customEmojisByName s) (nonExistentEmoji s))"

definition postEmojiNames :: "Env \<Rightarrow> GlobalState \<Rightarrow> Post \<Rightarrow> string set" where
  "postEmojiNames E s p =
     (if CHR '':'' \<in> set (message p) then parsedNames E s (message p) else {})
     \<union> (case props p of
          None \<Rightarrow> {}
        | Some pr \<Rightarrow>
            (case attachments pr of
               None \<Rightarrow> {}
             | Some atts \<Rightarrow>
                 if concat (map attachmentText atts) = [] then {}
                 else parsedNames E s (concat (map attachmentText atts))))"

text \<open>A combined system-activity post, and stores holding some of its members.\<close>

definition combined :: "string \<Rightarrow> string list \<Rightarrow> ExtendedPost" where
  "combined i ids =
     \<lparr>id' = Some i, pending_post_id = None, type' = ''system_combined_user_activity'',
      channel_id = ''town'', user_id = ''bob'', root_id = [], message = [],
      file_ids = None, create_at = 0, update_at = 0, failed = False, props = None,
      metadata = None, system_post_ids = Some ids\<rparr>"

definition storeOf :: "string list \<Rightarrow> GlobalState" where
  "storeOf ids = emptyState\<lparr>posts_posts := map_of (map (\<lambda>i. (i, mkPost i ''bob'' ''joined'')) ids)\<rparr>"

text \<open>
  The posts the store holds under the given ids, and the condition that each of them
  carries the id it is stored under.
\<close>

definition storedMembers :: "GlobalState \<Rightarrow> string list \<Rightarrow> Post list" where
  "storedMembers state ids = List.map_filter (getPost_selector state) ids"

definition keyedById :: "GlobalState \<Rightarrow> string list \<Rightarrow> bool" where
  "keyedById state ids =
     list_all (\<lambda>i. case getPost_selector state i of None \<Rightarrow> True | Some sp \<Rightarrow> id' sp = Some i) ids"

text \<open>A post that carries metadata from the server.\<close>

definition withMeta :: "Post \<Rightarrow> Post" where
  "withMeta p = p\<lparr>metadata := Some (PostMetadata [])\<rparr>"

text \<open>The metadata of an inbound post event.\<close>

definition wsProps :: WebsocketMessageProps where
  "wsProps = \<lparr>team_id = ''team'', mentions = Some ''[]''\<rparr>"

text \<open>Inputs for sending: a store with sends in flight, a draft, a rejection.\<close>

definition sendingState :: "string list \<Rightarrow> GlobalState" where
  "sendingState pending = emptyState\<lparr>pendingPostIds := pending\<rparr>"

definition draft :: "string option \<Rightarrow> Post" where
  "draft pending =
     \<lparr>id' = None, pending_post_id = pending, type' = [], channel_id = ''town'',
      user_id = ''me'', root_id = [], message = ''hello'', file_ids = None, create_at = 0,
      update_at = 0, failed = False, props = None, metadata = None\<rparr>"



section \<open>Verified properties\<close>

subsection \<open>Shared lemmas\<close>

lemma Object_entries_Nil_iff: "Object_entries kvs = [] \<longleftrightarrow> kvs = []"
  by (cases kvs) (auto simp: Object_entries_def filter_empty_conv)

lemma Object_values_Nil_iff: "Object_values kvs = [] \<longleftrightarrow> kvs = []"
  by (simp add: Object_values_def Object_entries_Nil_iff)

lemma getNeededCustomEmojis_None_iff:
  "getNeededCustomEmojis E s ps = None \<longleftrightarrow> EnableCustomEmoji s = Some ''true'' \<and> ps = []"
  by (simp add: getNeededCustomEmojis_def split: list.splits)

lemma prefetch_never_throws: "fst (getProfilesAndStatusesForPosts E a w) = None"
proof (cases a)
  case Missing
  then show ?thesis by (simp add: getProfilesAndStatusesForPosts_def)
next
  case (PostArray ps)
  then show ?thesis
    by (cases "getNeededCustomEmojis E (store_state w) ps")
       (auto simp: getProfilesAndStatusesForPosts_def Let_def getNeededCustomEmojis_None_iff)
next
  case (PostMap m)
  then show ?thesis
    by (cases "getNeededCustomEmojis E (store_state w) (Object_values m)")
       (auto simp: getProfilesAndStatusesForPosts_def Let_def getNeededCustomEmojis_None_iff)
qed

lemma dispatched_dispatch: "dispatched (dispatch E a w) = dispatched w @ [a]"
  by (simp add: dispatch_def)

lemma set_set_add: "set (set_add x xs) = insert x (set xs)"
  by (auto simp: set_add_def)

lemma earliest_mem: "earliest r rs \<in> snd ` set (r # rs)"
  by (induction rs arbitrary: r) auto

subsection \<open>The prefetcher on an empty batch\<close>

text \<open>
  C10. For a \<^verbatim>\<open>null\<close>, \<^verbatim>\<open>undefined\<close> or empty batch
  \<^verbatim>\<open>getProfilesAndStatusesForPosts\<close> returns at once and leaves the store as it was:
  nothing is dispatched. The read \<^verbatim>\<open>posts[0].metadata\<close> of the emoji scan throws
  exactly on an empty batch with custom emoji enabled, and no call of the prefetcher
  ever throws: the scan is only reached on a non-empty batch.
\<close>

theorem prefetcher_guards_empty_batch:
  "(a = Missing \<or> a = PostArray [] \<or> a = PostMap []
      \<longrightarrow> getProfilesAndStatusesForPosts E a w = (None, w))
   \<and> fst (getProfilesAndStatusesForPosts E a w) = None
   \<and> (getNeededCustomEmojis E s ps = None
        \<longleftrightarrow> EnableCustomEmoji s = Some ''true'' \<and> ps = [])"
proof -
  have "a = Missing \<or> a = PostArray [] \<or> a = PostMap []
          \<longrightarrow> getProfilesAndStatusesForPosts E a w = (None, w)"
    by (auto simp: getProfilesAndStatusesForPosts_def Object_values_def Object_entries_def)
  then show ?thesis
    using prefetch_never_throws [of E a w] getNeededCustomEmojis_None_iff [of E s ps]
    by blast
qed

theorem prefetcher_guards_empty_batch_witness:
  "getProfilesAndStatusesForPosts modelEnv (PostArray []) (world emptyState)
     = (None, world emptyState)
   \<and> getProfilesAndStatusesForPosts modelEnv Missing (world emptyState)
     = (None, world emptyState)
   \<and> getNeededCustomEmojis modelEnv emptyState [] = None"
proof -
  have en: "EnableCustomEmoji emptyState = Some ''true''"
    by (simp add: emptyState_def)
  show ?thesis
    using prefetcher_guards_empty_batch [where a = "PostArray []" and E = modelEnv
            and w = "world emptyState" and s = emptyState and ps = "[]"]
          prefetcher_guards_empty_batch [where a = Missing and E = modelEnv
            and w = "world emptyState" and s = emptyState and ps = "[]"]
          en
    by simp
qed

subsection \<open>Posts around a pivot\<close>

text \<open>
  C3. When the three requests of \<^verbatim>\<open>getPostsAround\<close> succeed, the result is a
  \<^verbatim>\<open>{data}\<close> whose order is the order of the after-page, then the pivot id, then
  the order of the before-page, and the last dispatch is the batch of the two receipt
  actions carrying that list. With after-page ids 5, 4, before-page ids 2, 1 and pivot
  3 the order is 5, 4, 3, 2, 1 (the witness).
\<close>

theorem getPostsAround_order:
  assumes "snd afterR = Inr after" and "snd threadR = Inr thread"
    and "snd beforeR = Inr before"
  shows "\<exists>ps done. getPostsAround E channelId postId afterR threadR beforeR w
             = (Data (PPosts ps), done)
           \<and> order ps = order after @ [postId] @ order before
           \<and> last (dispatched done)
               = batchActions [RECEIVED_POSTS ps,
                   RECEIVED_POSTS_IN_CHANNEL ps channelId
                     (next_post_id after = []) (prev_post_id before = [])]"
  using assms prefetch_never_throws [of E]
  by (simp add: getPostsAround_def Promise_all3_def Let_def dispatched_dispatch
        receivedPosts_def receivedPostsInChannel_def)

theorem getPostsAround_order_witness:
  "\<exists>ps done. getPostsAround modelEnv ''town'' ''3''
        (2, Inr (page [''5'', ''4''])) (1, Inr (page [''3''])) (3, Inr (page [''2'', ''1'']))
        (world emptyState) = (Data (PPosts ps), done)
      \<and> order ps = [''5'', ''4'', ''3'', ''2'', ''1'']"
  using getPostsAround_order [of "(2, Inr (page [''5'', ''4'']))" "page [''5'', ''4'']"
      "(1, Inr (page [''3'']))" "page [''3'']" "(3, Inr (page [''2'', ''1'']))"
      "page [''2'', ''1'']" modelEnv "''town''" "''3''" "world emptyState"]
  by (simp add: page_def) blast

text \<open>
  C5. When one of the three requests of \<^verbatim>\<open>getPostsAround\<close> fails, the result is an
  \<^verbatim>\<open>{error}\<close> carrying the error of one of the failed requests, and the call
  dispatches only the logout check and the error log: no receipt action, so nothing of
  the pages that did arrive reaches the store.
\<close>

theorem getPostsAround_all_or_nothing:
  assumes "isl (snd afterR) \<or> isl (snd threadR) \<or> isl (snd beforeR)"
  shows "\<exists>error done. getPostsAround E channelId postId afterR threadR beforeR w
             = (Err (ClientError error), done)
           \<and> error \<in> snd ` set (rejection afterR @ rejection threadR @ rejection beforeR)
           \<and> dispatched done = dispatched w
               @ [forceLogoutIfNecessary (ClientError error), logError (ClientError error)]
           \<and> \<not> list_ex isReceipt (newlyDispatched w done)"
proof -
  obtain error where pa: "Promise_all3 afterR threadR beforeR = Inl error"
    and mem: "error \<in> snd ` set (rejection afterR @ rejection threadR @ rejection beforeR)"
  proof (cases "snd afterR")
    case (Inl e)
    then show ?thesis
      using that [of "earliest (fst afterR, e) (rejection threadR @ rejection beforeR)"]
            earliest_mem [of "(fst afterR, e)" "rejection threadR @ rejection beforeR"]
      by (simp add: Promise_all3_def rejection_def)
  next
    case a: (Inr x)
    show ?thesis
    proof (cases "snd threadR")
      case (Inl e)
      then show ?thesis
        using a that [of "earliest (fst threadR, e) (rejection beforeR)"]
              earliest_mem [of "(fst threadR, e)" "rejection beforeR"]
        by (simp add: Promise_all3_def rejection_def)
    next
      case t: (Inr y)
      then obtain e where "snd beforeR = Inl e"
        using assms a by (cases "snd beforeR") auto
      then show ?thesis
        using a t that [of e] by (simp add: Promise_all3_def rejection_def)
    qed
  qed
  show ?thesis
    using pa mem
    by (simp add: getPostsAround_def Let_def dispatched_dispatch newlyDispatched_def)
qed

theorem getPostsAround_all_or_nothing_witness:
  "isl (snd (2 :: nat, (Inl boom :: Error + CombinedPostList)))
   \<and> (\<exists>done. getPostsAround modelEnv ''town'' ''3''
        (1, Inr (page [''5'', ''4''])) (2, Inl boom) (3, Inr (page [''2'', ''1'']))
        (world emptyState) = (Err (ClientError boom), done)
      \<and> dispatched done = [forceLogoutIfNecessary (ClientError boom), logError (ClientError boom)])"
  using getPostsAround_all_or_nothing [of "(1, Inr (page [''5'', ''4'']))" "(2, Inl boom)"
      "(3, Inr (page [''2'', ''1'']))" modelEnv "''town''" "''3''" "world emptyState"]
  by (auto simp: rejection_def world_def)

subsection \<open>Mention scanning\<close>

lemma set_scanMatch:
  "set (scanMatch E (usersByUsername s) acc m)
     = set acc \<union> (if wanted E s m then {fst m, snd m} else {})"
  by (auto simp: scanMatch_def wanted_def set_set_add)

lemma set_foldl_scanMatch:
  "set (foldl (scanMatch E (usersByUsername s)) acc ms)
     = set acc \<union> {n. \<exists>m \<in> set ms. wanted E s m \<and> (n = fst m \<or> n = snd m)}"
proof (induction ms arbitrary: acc)
  case Nil
  then show ?case by simp
next
  case (Cons m ms)
  show ?case
    unfolding foldl_Cons Cons.IH set_scanMatch by auto
qed

lemma execAll_no_at: "CHR ''@'' \<notin> set msg \<Longrightarrow> execAll b msg = []"
  by (induction msg arbitrary: b) auto

lemma set_scanPost:
  "set (scanPost E s acc p)
     = set acc \<union> {n. \<exists>m \<in> set (execAll False (message p)).
                        wanted E s m \<and> (n = fst m \<or> n = snd m)}"
  by (simp add: scanPost_def set_foldl_scanMatch execAll_no_at)

lemma set_foldl_scanPost:
  "set (foldl (scanPost E s) acc ps)
     = set acc \<union> {n. \<exists>p \<in> set ps. \<exists>m \<in> set (execAll False (message p)).
                        wanted E s m \<and> (n = fst m \<or> n = snd m)}"
proof (induction ps arbitrary: acc)
  case Nil
  then show ?case by simp
next
  case (Cons p ps)
  show ?case
    unfolding foldl_Cons Cons.IH set_scanPost by auto
qed

lemma dropTrailing_shape:
  assumes "list_ex isWordChar run" and "list_all isMentionChar run"
  shows "dropTrailing (\<lambda>x. \<not> isWordChar x) run \<noteq> []
         \<and> isWordChar (last (dropTrailing (\<lambda>x. \<not> isWordChar x) run))
         \<and> (\<exists>t. run = dropTrailing (\<lambda>x. \<not> isWordChar x) run @ t
                 \<and> set t \<subseteq> {CHR ''.'', CHR ''-''})"
proof -
  let ?P = "\<lambda>x. \<not> isWordChar x"
  let ?d = "dropWhile ?P (rev run)"
  have ne: "?d \<noteq> []"
    using assms(1) by (auto simp: list_ex_iff dropWhile_eq_Nil_conv)
  then have hd: "isWordChar (hd ?d)"
    using hd_dropWhile [of ?P "rev run"] by simp
  have split: "rev run = takeWhile ?P (rev run) @ ?d"
    by simp
  then have r: "run = rev ?d @ rev (takeWhile ?P (rev run))"
    by (metis rev_append rev_rev_ident)
  have t: "set (rev (takeWhile ?P (rev run))) \<subseteq> {CHR ''.'', CHR ''-''}"
  proof
    fix c assume "c \<in> set (rev (takeWhile ?P (rev run)))"
    then have c: "c \<in> set (takeWhile ?P (rev run))" by simp
    then have "\<not> isWordChar c" by (auto dest: set_takeWhileD)
    moreover have "c \<in> set run" using c by (auto dest: set_takeWhileD)
    then have "isMentionChar c" using assms(2) by (simp add: list_all_iff)
    ultimately show "c \<in> {CHR ''.'', CHR ''-''}" by (auto simp: isMentionChar_def)
  qed
  have ex: "\<exists>t. run = dropTrailing ?P run @ t \<and> set t \<subseteq> {CHR ''.'', CHR ''-''}"
    unfolding dropTrailing_def using r t by blast
  have "dropTrailing ?P run \<noteq> []" "isWordChar (last (dropTrailing ?P run))"
    using ne hd by (simp_all add: dropTrailing_def last_rev)
  then show ?thesis using ex by blast
qed

lemma execAll_shape:
  "m \<in> set (execAll b msg) \<Longrightarrow>
     snd m \<noteq> [] \<and> isWordChar (last (snd m)) \<and> list_all isMentionChar (fst m)
     \<and> (\<exists>t. fst m = snd m @ t \<and> set t \<subseteq> {CHR ''.'', CHR ''-''})"
proof (induction b msg rule: execAll.induct)
  case (1 prevWord)
  then show ?case by simp
next
  case (2 prevWord c cs)
  let ?run = "takeWhile isMentionChar cs"
  have all: "list_all isMentionChar ?run"
    by (auto simp: list_all_iff dest: set_takeWhileD)
  show ?case
  proof (cases "c = CHR ''@'' \<and> \<not> prevWord")
    case at: True
    show ?thesis
    proof (cases "list_ex isWordChar ?run")
      case True
      then have "m = (?run, dropTrailing (\<lambda>x. \<not> isWordChar x) ?run)
                 \<or> m \<in> set (execAll (isWordChar (last ?run)) (dropWhile isMentionChar cs))"
        using "2.prems" at by (simp add: Let_def)
      then show ?thesis
      proof
        assume "m = (?run, dropTrailing (\<lambda>x. \<not> isWordChar x) ?run)"
        then show ?thesis
          using dropTrailing_shape [OF True all] all by simp
      next
        assume "m \<in> set (execAll (isWordChar (last ?run)) (dropWhile isMentionChar cs))"
        then show ?thesis
          using "2.IH"(1) [OF at refl True] by simp
      qed
    next
      case False
      then have "m \<in> set (execAll False cs)"
        using "2.prems" at by (simp add: Let_def)
      then show ?thesis
        using "2.IH"(2) [OF at refl False] by simp
    qed
  next
    case False
    then have "m \<in> set (execAll (isWordChar c) cs)"
      using "2.prems" by auto
    then show ?thesis
      using "2.IH"(3) [OF False] by simp
  qed
qed

lemma execAll_skip:
  "CHR ''@'' \<notin> set pre \<Longrightarrow>
     execAll b (pre @ msg) = execAll (if pre = [] then b else isWordChar (last pre)) msg"
proof (induction pre arbitrary: b)
  case Nil
  then show ?case by simp
next
  case (Cons c pre)
  then show ?case by (cases pre) auto
qed

lemma takeWhile_run:
  "list_all isMentionChar run \<Longrightarrow> rest = [] \<or> \<not> isMentionChar (hd rest) \<Longrightarrow>
     takeWhile isMentionChar (run @ rest) = run \<and> dropWhile isMentionChar (run @ rest) = rest"
  by (cases rest) (auto simp: list_all_iff takeWhile_append dropWhile_append)

lemma execAll_token:
  assumes "CHR ''@'' \<notin> set pre" and "pre = [] \<or> \<not> isWordChar (last pre)"
    and "list_all isMentionChar run" and "list_ex isWordChar run"
    and "rest = [] \<or> \<not> isMentionChar (hd rest)"
  shows "execAll False (pre @ CHR ''@'' # run @ rest)
           = (run, dropTrailing (\<lambda>x. \<not> isWordChar x) run)
               # execAll (isWordChar (last run)) rest"
proof -
  have "execAll False (pre @ CHR ''@'' # run @ rest) = execAll False (CHR ''@'' # run @ rest)"
    using assms(1,2) by (auto simp: execAll_skip)
  then show ?thesis
    using takeWhile_run [OF assms(3,5)] assms(4) by (simp add: Let_def)
qed

lemma execAll_example:
  "execAll False ''hi @bob.smith, cc @all'' = [(''bob.smith'', ''bob.smith''), (''all'', ''all'')]"
  by code_simp


lemma matchAt_Suc: "matchAt b (c # cs) (Suc i) = matchAt (isWordChar c) cs i"
  by (cases i) (simp_all add: matchAt_def isMentionStart_def mentionRun_def)

lemma mentionMatches_Cons:
  "mentionMatches b (c # cs) = matchAt b (c # cs) 0 @ mentionMatches (isWordChar c) cs"
proof -
  have "[0..<length (c # cs)] = 0 # map Suc [0..<length cs]"
    by (simp add: upt_conv_Cons map_Suc_upt del: upt_Suc)
  then show ?thesis
    by (simp add: mentionMatches_def matchAt_Suc comp_def del: upt_Suc)
qed

lemma mentionMatches_Nil: "mentionMatches b [] = []"
  by (simp add: mentionMatches_def)

lemma matchAt_no_at: "c \<noteq> CHR ''@'' \<Longrightarrow> matchAt b (c # cs) 0 = []"
  by (simp add: matchAt_def isMentionStart_def)

lemma mentionMatches_skip:
  "CHR ''@'' \<notin> set pre \<Longrightarrow>
     mentionMatches b (pre @ msg)
       = mentionMatches (if pre = [] then b else isWordChar (last pre)) msg"
proof (induction pre arbitrary: b)
  case Nil
  then show ?case by simp
next
  case (Cons c pre)
  then have c: "c \<noteq> CHR ''@''" and pre: "CHR ''@'' \<notin> set pre"
    by auto
  have "mentionMatches b ((c # pre) @ msg) = mentionMatches (isWordChar c) (pre @ msg)"
    using c by (simp add: mentionMatches_Cons matchAt_no_at)
  also have "\<dots> = mentionMatches (if pre = [] then isWordChar c else isWordChar (last pre)) msg"
    by (rule Cons.IH [OF pre])
  finally show ?case by simp
qed

lemma at_not_mention: "\<not> isMentionChar (CHR ''@'')" "\<not> isWordChar (CHR ''@'')"
  by (simp_all add: isMentionChar_def isWordChar_def)

lemma run_no_at: "CHR ''@'' \<notin> set (takeWhile isMentionChar cs)"
  using at_not_mention(1) by (auto dest: set_takeWhileD)

lemma execAll_positions: "execAll b msg = mentionMatches b msg"
proof (induction b msg rule: execAll.induct)
  case (1 prevWord)
  then show ?case by (simp add: mentionMatches_Nil)
next
  case (2 prevWord c cs)
  let ?run = "takeWhile isMentionChar cs"
  let ?rest = "dropWhile isMentionChar cs"
  show ?case
  proof (cases "c = CHR ''@'' \<and> \<not> prevWord")
    case at: True
    then have c: "c = CHR ''@''" and np: "\<not> prevWord" by simp_all
    show ?thesis
    proof (cases "list_ex isWordChar ?run")
      case True
      then have ne: "?run \<noteq> []" by auto
      have "mentionMatches False cs = mentionMatches False (?run @ ?rest)"
        by simp
      also have "\<dots> = mentionMatches (isWordChar (last ?run)) ?rest"
        using mentionMatches_skip [OF run_no_at, where cs1 = cs and b = False and msg = ?rest] ne
        by simp
      finally have skip: "mentionMatches False cs = mentionMatches (isWordChar (last ?run)) ?rest" .
      have "execAll prevWord (c # cs)
              = (?run, dropTrailing (\<lambda>x. \<not> isWordChar x) ?run)
                  # execAll (isWordChar (last ?run)) ?rest"
        using at True by (simp add: Let_def)
      also have "\<dots> = (?run, dropTrailing (\<lambda>x. \<not> isWordChar x) ?run)
                         # mentionMatches (isWordChar (last ?run)) ?rest"
        using "2.IH"(1) [OF at refl True] by simp
      also have "\<dots> = matchAt prevWord (c # cs) 0 @ mentionMatches (isWordChar c) cs"
        using True c np skip
        by (simp add: matchAt_def isMentionStart_def mentionRun_def at_not_mention)
      finally show ?thesis by (simp add: mentionMatches_Cons)
    next
      case False
      have "execAll prevWord (c # cs) = execAll False cs"
        using at False by (simp add: Let_def)
      also have "\<dots> = mentionMatches False cs"
        using "2.IH"(2) [OF at refl False] by simp
      also have "\<dots> = matchAt prevWord (c # cs) 0 @ mentionMatches (isWordChar c) cs"
        using False c
        by (simp add: matchAt_def isMentionStart_def mentionRun_def at_not_mention)
      finally show ?thesis by (simp add: mentionMatches_Cons)
    qed
  next
    case False
    have "execAll prevWord (c # cs) = execAll (isWordChar c) cs"
      using False by auto
    also have "\<dots> = mentionMatches (isWordChar c) cs"
      using "2.IH"(3) [OF False] by simp
    also have "\<dots> = matchAt prevWord (c # cs) 0 @ mentionMatches (isWordChar c) cs"
      using False by (auto simp: matchAt_def isMentionStart_def)
    finally show ?thesis by (simp add: mentionMatches_Cons)
  qed
qed

lemma execAll_constructor:
  "execAll False ''@constructor'' = [(''constructor'', ''constructor'')]"
  by code_simp

lemma prototype_truthy: "dictionaryTruthy d ''constructor''"
  by (simp add: dictionaryTruthy_def objectPrototypeKeys_def)

lemma bob_smith_plain: "dictionaryTruthy d ''bob.smith'' \<longleftrightarrow> d ''bob.smith'' \<noteq> None"
  by (simp add: dictionaryTruthy_def objectPrototypeKeys_def)

text \<open>
  C8. The scanner finds exactly the mentions of the message: every \<^verbatim>\<open>@\<close> that
  stands at the start or behind a non-word character and is followed by a run of
  mention characters holding a word character, from left to right, each as the run and
  the run without its trailing dots and dashes. The usernames that
  \<^verbatim>\<open>getNeededAtMentionedUsernames\<close> asks for are the two forms of every such match
  whose trimmed form is not a reserved mention and neither of whose forms reads as
  truthy in \<^verbatim>\<open>usersByUsername\<close>. On \<^verbatim>\<open>hi @bob.smith, cc @all\<close>, with
  \<^verbatim>\<open>all\<close> reserved and \<^verbatim>\<open>bob.smith\<close> neither reserved nor cached, the result
  is \<^verbatim>\<open>bob.smith\<close> alone. But a read of \<^verbatim>\<open>usersByUsername\<close> is truthy also
  for the name of a property of \<^verbatim>\<open>Object.prototype\<close>: on the message
  \<^verbatim>\<open>@constructor\<close> nothing is asked for, whether or not a profile of that name is
  cached, where the claim has the uncached candidate added.
\<close>

theorem mention_scan:
  "execAll False msg = mentionMatches False msg
   \<and> set (getNeededAtMentionedUsernames E s ps)
     = {n. \<exists>p \<in> set ps. \<exists>m \<in> set (mentionMatches False (message p)).
             snd m \<notin> set (SPECIAL_MENTIONS E)
             \<and> \<not> dictionaryTruthy (usersByUsername s) (fst m)
             \<and> \<not> dictionaryTruthy (usersByUsername s) (snd m)
             \<and> (n = fst m \<or> n = snd m)}
   \<and> (\<forall>m \<in> set (execAll b msg).
         snd m \<noteq> [] \<and> isWordChar (last (snd m)) \<and> list_all isMentionChar (fst m)
         \<and> (\<exists>t. fst m = snd m @ t \<and> set t \<subseteq> {CHR ''.'', CHR ''-''}))
   \<and> (CHR ''@'' \<notin> set pre \<and> (pre = [] \<or> \<not> isWordChar (last pre))
        \<and> list_all isMentionChar run \<and> list_ex isWordChar run
        \<and> (rest = [] \<or> \<not> isMentionChar (hd rest))
       \<longrightarrow> execAll False (pre @ CHR ''@'' # run @ rest)
             = (run, dropTrailing (\<lambda>x. \<not> isWordChar x) run)
                 # execAll (isWordChar (last run)) rest)
   \<and> (''all'' \<in> set (SPECIAL_MENTIONS E) \<and> ''bob.smith'' \<notin> set (SPECIAL_MENTIONS E)
        \<and> usersByUsername s ''bob.smith'' = None \<and> message p = ''hi @bob.smith, cc @all''
       \<longrightarrow> getNeededAtMentionedUsernames E s [p] = [''bob.smith''])
   \<and> (message q = ''@constructor'' \<longrightarrow> getNeededAtMentionedUsernames E s [q] = [])"
proof (intro conjI)
  show "execAll False msg = mentionMatches False msg"
    by (rule execAll_positions)
next
  show "set (getNeededAtMentionedUsernames E s ps)
     = {n. \<exists>p \<in> set ps. \<exists>m \<in> set (mentionMatches False (message p)).
             snd m \<notin> set (SPECIAL_MENTIONS E)
             \<and> \<not> dictionaryTruthy (usersByUsername s) (fst m)
             \<and> \<not> dictionaryTruthy (usersByUsername s) (snd m)
             \<and> (n = fst m \<or> n = snd m)}"
    unfolding getNeededAtMentionedUsernames_def set_foldl_scanPost wanted_def
      execAll_positions by simp
next
  show "\<forall>m \<in> set (execAll b msg).
         snd m \<noteq> [] \<and> isWordChar (last (snd m)) \<and> list_all isMentionChar (fst m)
         \<and> (\<exists>t. fst m = snd m @ t \<and> set t \<subseteq> {CHR ''.'', CHR ''-''})"
    using execAll_shape by blast
next
  show "CHR ''@'' \<notin> set pre \<and> (pre = [] \<or> \<not> isWordChar (last pre))
        \<and> list_all isMentionChar run \<and> list_ex isWordChar run
        \<and> (rest = [] \<or> \<not> isMentionChar (hd rest))
       \<longrightarrow> execAll False (pre @ CHR ''@'' # run @ rest)
             = (run, dropTrailing (\<lambda>x. \<not> isWordChar x) run)
                 # execAll (isWordChar (last run)) rest"
    using execAll_token by blast
next
  show "''all'' \<in> set (SPECIAL_MENTIONS E) \<and> ''bob.smith'' \<notin> set (SPECIAL_MENTIONS E)
        \<and> usersByUsername s ''bob.smith'' = None \<and> message p = ''hi @bob.smith, cc @all''
       \<longrightarrow> getNeededAtMentionedUsernames E s [p] = [''bob.smith'']"
  proof (intro impI, elim conjE)
    assume special: "''all'' \<in> set (SPECIAL_MENTIONS E)"
      and plain: "''bob.smith'' \<notin> set (SPECIAL_MENTIONS E)"
      and uncached: "usersByUsername s ''bob.smith'' = None"
      and msg: "message p = ''hi @bob.smith, cc @all''"
    have ex: "execAll False (message p) = [(''bob.smith'', ''bob.smith''), (''all'', ''all'')]"
      unfolding msg by (rule execAll_example)
    have at: "CHR ''@'' \<in> set (message p)"
      unfolding msg by simp
    have "scanPost E s [] p = [''bob.smith'']"
      using special plain uncached
      by (simp add: scanPost_def ex at scanMatch_def set_add_def bob_smith_plain)
    then show "getNeededAtMentionedUsernames E s [p] = [''bob.smith'']"
      by (simp add: getNeededAtMentionedUsernames_def)
  qed
next
  show "message q = ''@constructor'' \<longrightarrow> getNeededAtMentionedUsernames E s [q] = []"
  proof
    assume msg: "message q = ''@constructor''"
    have ex: "execAll False (message q) = [(''constructor'', ''constructor'')]"
      unfolding msg by (rule execAll_constructor)
    have at: "CHR ''@'' \<in> set (message q)"
      unfolding msg by simp
    have "scanPost E s [] q = []"
      by (simp add: scanPost_def ex at scanMatch_def prototype_truthy)
    then show "getNeededAtMentionedUsernames E s [q] = []"
      by (simp add: getNeededAtMentionedUsernames_def)
  qed
qed

theorem mention_scan_witness:
  "getNeededAtMentionedUsernames modelEnv emptyState
       [mkPost ''p1'' ''ann'' ''hi @bob.smith, cc @all''] = [''bob.smith'']
   \<and> ''all'' \<notin> set (getNeededAtMentionedUsernames modelEnv emptyState
                       [mkPost ''p1'' ''ann'' ''hi @bob.smith, cc @all''])
   \<and> usersByUsername emptyState ''constructor'' = None
   \<and> ''constructor'' \<notin> set (SPECIAL_MENTIONS modelEnv)
   \<and> getNeededAtMentionedUsernames modelEnv emptyState
       [mkPost ''p2'' ''ann'' ''@constructor''] = []"
  using mention_scan [where E = modelEnv and s = emptyState
      and p = "mkPost ''p1'' ''ann'' ''hi @bob.smith, cc @all''"
      and q = "mkPost ''p2'' ''ann'' ''@constructor''" and ps = "[]"
      and msg = "[]" and pre = "[]" and run = "[]" and rest = "[]" and b = False]
  by (simp add: modelEnv_def emptyState_def mkPost_def)

subsection \<open>Emoji scanning\<close>

lemma set_set_of_list: "set (set_of_list xs) = set xs"
proof -
  have "set (foldl (\<lambda>acc x. set_add x acc) acc xs) = set acc \<union> set xs" for acc :: "'a list"
    by (induction xs arbitrary: acc) (auto simp: set_set_add)
  then show ?thesis by (simp add: set_of_list_def)
qed

lemma distinct_set_of_list: "distinct (set_of_list xs)"
proof -
  have "distinct acc \<Longrightarrow> distinct (foldl (\<lambda>acc x. set_add x acc) acc xs)" for acc :: "'a list"
    by (induction xs arbitrary: acc) (auto simp: set_add_def)
  then show ?thesis by (simp add: set_of_list_def)
qed

lemma foldl_appendField:
  "foldl appendField acc fs
     = acc @ concat (map (\<lambda>f. '' '' @ (case field_value f of None \<Rightarrow> [] | Some v \<Rightarrow> v)) fs)"
  by (induction fs arbitrary: acc) (simp_all add: appendField_def)

lemma appendAttachment_text: "appendAttachment acc a = acc @ attachmentText a"
  by (simp add: appendAttachment_def attachmentText_def appendIfTruthy_def Let_def
        foldl_appendField split: option.splits)

lemma buildPostAttachmentText_concat:
  "buildPostAttachmentText atts = concat (map attachmentText atts)"
proof -
  have "foldl appendAttachment acc atts = acc @ concat (map attachmentText atts)" for acc
    by (induction atts arbitrary: acc) (simp_all add: appendAttachment_text)
  then show ?thesis by (simp add: buildPostAttachmentText_def)
qed

lemma set_addEmojisFromText:
  "set (addEmojisFromText E s acc t) = set acc \<union> parsedNames E s t"
  by (simp add: addEmojisFromText_def parsedNames_def Let_def set_set_of_list)

lemma distinct_addEmojisFromText:
  "distinct acc \<Longrightarrow> distinct (addEmojisFromText E s acc t)"
  by (simp add: addEmojisFromText_def Let_def distinct_set_of_list)

lemma set_scanPostEmojis:
  "set (scanPostEmojis E s acc p) = set acc \<union> postEmojiNames E s p"
  by (auto simp: scanPostEmojis_def postEmojiNames_def Let_def set_addEmojisFromText
        buildPostAttachmentText_concat split: option.splits)

lemma distinct_scanPostEmojis:
  "distinct acc \<Longrightarrow> distinct (scanPostEmojis E s acc p)"
  by (simp add: scanPostEmojis_def Let_def distinct_addEmojisFromText split: option.splits)

lemma set_foldl_scanPostEmojis:
  "set (foldl (scanPostEmojis E s) acc ps)
     = set acc \<union> (\<Union>p \<in> set ps. postEmojiNames E s p)"
proof (induction ps arbitrary: acc)
  case Nil
  then show ?case by simp
next
  case (Cons p ps)
  show ?case
    unfolding foldl_Cons Cons.IH set_scanPostEmojis by auto
qed

lemma distinct_foldl_scanPostEmojis:
  "distinct acc \<Longrightarrow> distinct (foldl (scanPostEmojis E s) acc ps)"
  by (induction ps arbitrary: acc) (simp_all add: distinct_scanPostEmojis)

text \<open>
  C7, as amended. \<^verbatim>\<open>getNeededCustomEmojis\<close> returns the empty set when custom emoji
  are disabled, and also when the first post of the batch carries metadata, whatever
  the other posts carry. Otherwise every post of the batch is scanned: the result is a
  set that holds exactly, for each post of the batch, the names the parser finds in
  its message (when the message holds a colon) and in the text of its attachments
  (when that text is not empty), and what a post contributes does not depend on its
  own metadata. The text of the attachments is the one the spec describes: fields,
  pretext and text, each behind a space. With custom emoji enabled, the scan of an
  empty batch throws.
\<close>

theorem emoji_scan_first_post_decides:
  "(EnableCustomEmoji s \<noteq> Some ''true'' \<longrightarrow> getNeededCustomEmojis E s ps = Some [])
   \<and> (EnableCustomEmoji s = Some ''true'' \<longrightarrow> getNeededCustomEmojis E s [] = None)
   \<and> (EnableCustomEmoji s = Some ''true'' \<and> metadata first \<noteq> None
        \<longrightarrow> getNeededCustomEmojis E s (first # rest) = Some [])
   \<and> (EnableCustomEmoji s = Some ''true'' \<and> metadata first = None
        \<longrightarrow> (\<exists>found. getNeededCustomEmojis E s (first # rest) = Some found
               \<and> distinct found
               \<and> set found = (\<Union>p \<in> set (first # rest). postEmojiNames E s p)))
   \<and> set (scanPostEmojis E s acc p) = set acc \<union> postEmojiNames E s p
   \<and> buildPostAttachmentText atts = concat (map attachmentText atts)
   \<and> scanPostEmojis E s acc (p\<lparr>metadata := m\<rparr>) = scanPostEmojis E s acc p
   \<and> postEmojiNames E s (p\<lparr>metadata := m\<rparr>) = postEmojiNames E s p"
proof (intro conjI)
  show "EnableCustomEmoji s \<noteq> Some ''true'' \<longrightarrow> getNeededCustomEmojis E s ps = Some []"
    by (simp add: getNeededCustomEmojis_def)
  show "EnableCustomEmoji s = Some ''true'' \<longrightarrow> getNeededCustomEmojis E s [] = None"
    by (simp add: getNeededCustomEmojis_def)
  show "EnableCustomEmoji s = Some ''true'' \<and> metadata first \<noteq> None
        \<longrightarrow> getNeededCustomEmojis E s (first # rest) = Some []"
    by (simp add: getNeededCustomEmojis_def)
  show "EnableCustomEmoji s = Some ''true'' \<and> metadata first = None
        \<longrightarrow> (\<exists>found. getNeededCustomEmojis E s (first # rest) = Some found
               \<and> distinct found
               \<and> set found = (\<Union>p \<in> set (first # rest). postEmojiNames E s p))"
    using set_foldl_scanPostEmojis [of E s "[]" "first # rest"]
          distinct_foldl_scanPostEmojis [of "[]" E s "first # rest"]
    by (simp add: getNeededCustomEmojis_def)
  show "set (scanPostEmojis E s acc p) = set acc \<union> postEmojiNames E s p"
    by (rule set_scanPostEmojis)
  show "buildPostAttachmentText atts = concat (map attachmentText atts)"
    by (rule buildPostAttachmentText_concat)
  show "scanPostEmojis E s acc (p\<lparr>metadata := m\<rparr>) = scanPostEmojis E s acc p"
    by (simp add: scanPostEmojis_def)
  show "postEmojiNames E s (p\<lparr>metadata := m\<rparr>) = postEmojiNames E s p"
    by (simp add: postEmojiNames_def)
qed

text \<open>
  C7 as stated fails: behind a first post with metadata, a post without metadata is not
  scanned (its \<^verbatim>\<open>:foo:\<close> is not asked for); and behind a first post without
  metadata, a post with metadata is scanned (its \<^verbatim>\<open>:bar:\<close> is asked for).
\<close>

theorem emoji_scan_per_post_counterexample:
  "metadata (mkPost ''p1'' ''bob'' '':foo:'') = None
   \<and> getNeededCustomEmojis modelEnv emptyState [mkPost ''p1'' ''bob'' '':foo:''] = Some [''foo'']
   \<and> getNeededCustomEmojis modelEnv emptyState
        [withMeta (mkPost ''p0'' ''bob'' ''hi''), mkPost ''p1'' ''bob'' '':foo:''] = Some []
   \<and> metadata (withMeta (mkPost ''p2'' ''bob'' '':bar:'')) \<noteq> None
   \<and> getNeededCustomEmojis modelEnv emptyState
        [mkPost ''p1'' ''bob'' '':foo:'', withMeta (mkPost ''p2'' ''bob'' '':bar:'')]
        = Some [''foo'', ''bar'']"
  by code_simp

lemma postEmojiNames_foo:
  "postEmojiNames modelEnv emptyState (mkPost ''p1'' ''bob'' '':foo:'') = {''foo''}"
  by (simp add: postEmojiNames_def parsedNames_def mkPost_def modelEnv_def emptyState_def
        parseModel_def isEmojiChar_def isWordChar_def set_add_def)

lemma postEmojiNames_bar:
  "postEmojiNames modelEnv emptyState (withMeta (mkPost ''p2'' ''bob'' '':bar:'')) = {''bar''}"
  by (simp add: postEmojiNames_def parsedNames_def mkPost_def withMeta_def modelEnv_def
        emptyState_def parseModel_def isEmojiChar_def isWordChar_def set_add_def)

theorem emoji_scan_first_post_decides_witness:
  "getNeededCustomEmojis modelEnv (emptyState\<lparr>EnableCustomEmoji := Some ''false''\<rparr>)
      [mkPost ''p1'' ''bob'' '':foo:''] = Some []
   \<and> getNeededCustomEmojis modelEnv emptyState [] = None
   \<and> getNeededCustomEmojis modelEnv emptyState
        [withMeta (mkPost ''p0'' ''bob'' ''hi''), mkPost ''p1'' ''bob'' '':foo:''] = Some []
   \<and> (\<exists>found. getNeededCustomEmojis modelEnv emptyState
          [mkPost ''p1'' ''bob'' '':foo:'', withMeta (mkPost ''p2'' ''bob'' '':bar:'')] = Some found
        \<and> distinct found \<and> set found = {''foo'', ''bar''})"
proof -
  have off: "EnableCustomEmoji (emptyState\<lparr>EnableCustomEmoji := Some ''false''\<rparr>) \<noteq> Some ''true''"
    by simp
  have on: "EnableCustomEmoji emptyState = Some ''true''"
    by (simp add: emptyState_def)
  have m0: "metadata (withMeta (mkPost ''p0'' ''bob'' ''hi'')) \<noteq> None"
    by (simp add: withMeta_def)
  have m1: "metadata (mkPost ''p1'' ''bob'' '':foo:'') = None"
    by (simp add: mkPost_def)
  note T = emoji_scan_first_post_decides [where E = modelEnv]
  have a: "getNeededCustomEmojis modelEnv (emptyState\<lparr>EnableCustomEmoji := Some ''false''\<rparr>)
      [mkPost ''p1'' ''bob'' '':foo:''] = Some []"
    using T [THEN conjunct1, THEN mp, OF off] .
  have b: "getNeededCustomEmojis modelEnv emptyState [] = None"
    using T [THEN conjunct2, THEN conjunct1, THEN mp, OF on] .
  have c: "getNeededCustomEmojis modelEnv emptyState
        [withMeta (mkPost ''p0'' ''bob'' ''hi''), mkPost ''p1'' ''bob'' '':foo:''] = Some []"
    using T [THEN conjunct2, THEN conjunct2, THEN conjunct1, THEN mp, OF conjI [OF on m0]] .
  have d: "\<exists>found. getNeededCustomEmojis modelEnv emptyState
          [mkPost ''p1'' ''bob'' '':foo:'', withMeta (mkPost ''p2'' ''bob'' '':bar:'')] = Some found
        \<and> distinct found \<and> set found = {''foo'', ''bar''}"
    using T [THEN conjunct2, THEN conjunct2, THEN conjunct2, THEN conjunct1, THEN mp,
             OF conjI [OF on m1], of "[withMeta (mkPost ''p2'' ''bob'' '':bar:'')]"]
    by (simp add: postEmojiNames_foo postEmojiNames_bar insert_commute)
  show ?thesis
    using a b c d by blast
qed

subsection \<open>Deleting and removing a combined post\<close>

lemma deletePost_single:
  "memberIds E post = None \<Longrightarrow> deletePost E post w = (Data PTrue, dispatch E (deleteOffline post) w)"
  by (simp add: deletePost.simps)

lemma removePost_single:
  "memberIds E post = None \<Longrightarrow> removePost E post w = (Undefined, dispatch E (postRemoved (asPost post)) w)"
  by (simp add: removePost.simps)

lemma asPost_asExtendedPost: "asPost (asExtendedPost p) = p"
  by (simp add: asPost_def asExtendedPost_def Post.extend_def Post.truncate_def)

lemma id_asExtendedPost: "id' (asExtendedPost p) = id' p"
  by (simp add: asExtendedPost_def Post.extend_def)

lemma fanout_dispatched:
  "dispatched (foldl (\<lambda>w' i. case sel i of None \<Rightarrow> w' | Some sp \<Rightarrow> dispatch E (act sp) w') w ids)
     = dispatched w @ map act (List.map_filter sel ids)"
proof (induction ids arbitrary: w)
  case Nil
  then show ?case by (simp add: List.map_filter_simps)
next
  case (Cons i ids)
  show ?case
    by (cases "sel i") (simp_all add: Cons.IH List.map_filter_simps dispatched_dispatch)
qed

lemma deletePost_combined:
  assumes "memberIds E post = Some ids"
  shows "dispatched (snd (deletePost E post w))
           = dispatched w @ map (\<lambda>sp. deleteOffline (asExtendedPost sp))
                              (storedMembers (store_state w) ids)"
proof -
  have "snd (deletePost E post w)
          = foldl (\<lambda>w' i. case getPost_selector (store_state w) i of None \<Rightarrow> w'
                           | Some sp \<Rightarrow> dispatch E (deleteOffline (asExtendedPost sp)) w') w ids"
    using assms
    by (subst deletePost.simps)
       (simp add: deletePost_single memberIds_asExtendedPost cong: option.case_cong)
  then show ?thesis
    by (simp add: fanout_dispatched storedMembers_def)
qed

lemma removePost_combined:
  assumes "memberIds E post = Some ids"
  shows "dispatched (snd (removePost E post w))
           = dispatched w @ map POST_REMOVED (storedMembers (store_state w) ids)"
proof -
  have "snd (removePost E post w)
          = foldl (\<lambda>w' i. case getPost_selector (store_state w) i of None \<Rightarrow> w'
                           | Some sp \<Rightarrow> dispatch E (POST_REMOVED sp) w') w ids"
    using assms
    by (subst removePost.simps)
       (simp add: removePost_single memberIds_asExtendedPost
          asPost_asExtendedPost postRemoved_def cong: option.case_cong)
  then show ?thesis
    by (simp add: fanout_dispatched storedMembers_def)
qed

lemma deleteRequests_map:
  "deleteRequests (map (\<lambda>sp. deleteOffline (asExtendedPost sp)) ps) = map id' ps"
  by (induction ps) (simp_all add: deleteRequests_def deleteOffline_def Let_def id_asExtendedPost)

lemma removed_map: "concat (map removedPost (map POST_REMOVED ps)) = ps"
  by (induction ps) simp_all

lemma storedMembers_keyed:
  "keyedById s ids \<Longrightarrow>
     map id' (storedMembers s ids) = map Some (filter (\<lambda>i. getPost_selector s i \<noteq> None) ids)"
  by (induction ids)
     (auto simp: keyedById_def storedMembers_def List.map_filter_simps split: option.splits)

text \<open>
  C4, as amended. For a combined system-activity post with member ids \<open>ids\<close>,
  \<^verbatim>\<open>deletePost\<close> dispatches one offline delete for each member id that resolves to
  a post in the store (a member that is not cached is skipped), each for that stored
  post, and nothing for the combined record; \<^verbatim>\<open>removePost\<close> dispatches one
  \<^verbatim>\<open>POST_REMOVED\<close> per stored member in the same way. Where every stored member
  carries the id it is stored under, the delete requests are the cached member ids in
  order (all three of a, b, c when all are cached), and no id outside the member list,
  the combined id in particular, is deleted or removed.
\<close>

theorem combined_fanout:
  assumes "memberIds E post = Some ids"
  shows "newlyDispatched w (snd (deletePost E post w))
           = map (\<lambda>sp. deleteOffline (asExtendedPost sp)) (storedMembers (store_state w) ids)
       \<and> deleteRequests (newlyDispatched w (snd (deletePost E post w)))
           = map id' (storedMembers (store_state w) ids)
       \<and> newlyDispatched w (snd (removePost E post w))
           = map POST_REMOVED (storedMembers (store_state w) ids)
       \<and> (keyedById (store_state w) ids \<longrightarrow>
            deleteRequests (newlyDispatched w (snd (deletePost E post w)))
              = map Some (filter (\<lambda>i. getPost_selector (store_state w) i \<noteq> None) ids)
            \<and> map id' (concat (map removedPost (newlyDispatched w (snd (removePost E post w)))))
              = map Some (filter (\<lambda>i. getPost_selector (store_state w) i \<noteq> None) ids))
       \<and> (keyedById (store_state w) ids \<and> c \<notin> set ids \<longrightarrow>
            Some c \<notin> set (deleteRequests (newlyDispatched w (snd (deletePost E post w))))
            \<and> Some c \<notin> id' ` set (concat (map removedPost
                                 (newlyDispatched w (snd (removePost E post w))))))"
proof -
  let ?members = "storedMembers (store_state w) ids"
  have d: "newlyDispatched w (snd (deletePost E post w))
             = map (\<lambda>sp. deleteOffline (asExtendedPost sp)) ?members"
    using deletePost_combined [OF assms, of w] by (simp add: newlyDispatched_def)
  have r: "newlyDispatched w (snd (removePost E post w)) = map POST_REMOVED ?members"
    using removePost_combined [OF assms, of w] by (simp add: newlyDispatched_def)
  have dr: "deleteRequests (newlyDispatched w (snd (deletePost E post w))) = map id' ?members"
    unfolding d by (rule deleteRequests_map)
  have rr: "concat (map removedPost (newlyDispatched w (snd (removePost E post w)))) = ?members"
    unfolding r by (rule removed_map)
  have k4: "keyedById (store_state w) ids \<longrightarrow>
            deleteRequests (newlyDispatched w (snd (deletePost E post w)))
              = map Some (filter (\<lambda>i. getPost_selector (store_state w) i \<noteq> None) ids)
            \<and> map id' (concat (map removedPost (newlyDispatched w (snd (removePost E post w)))))
              = map Some (filter (\<lambda>i. getPost_selector (store_state w) i \<noteq> None) ids)"
  proof (intro impI conjI)
    assume k: "keyedById (store_state w) ids"
    show "deleteRequests (newlyDispatched w (snd (deletePost E post w)))
            = map Some (filter (\<lambda>i. getPost_selector (store_state w) i \<noteq> None) ids)"
      unfolding dr by (rule storedMembers_keyed [OF k])
    show "map id' (concat (map removedPost (newlyDispatched w (snd (removePost E post w)))))
            = map Some (filter (\<lambda>i. getPost_selector (store_state w) i \<noteq> None) ids)"
      unfolding rr by (rule storedMembers_keyed [OF k])
  qed
  have k5: "keyedById (store_state w) ids \<and> c \<notin> set ids \<longrightarrow>
            Some c \<notin> set (deleteRequests (newlyDispatched w (snd (deletePost E post w))))
            \<and> Some c \<notin> id' ` set (concat (map removedPost
                                 (newlyDispatched w (snd (removePost E post w)))))"
  proof (intro impI, elim conjE)
    assume k: "keyedById (store_state w) ids" and nc: "c \<notin> set ids"
    have "set (map id' ?members) \<subseteq> Some ` set ids"
      unfolding storedMembers_keyed [OF k] by auto
    then have "Some c \<notin> set (map id' ?members)"
      using nc by auto
    then show "Some c \<notin> set (deleteRequests (newlyDispatched w (snd (deletePost E post w))))
            \<and> Some c \<notin> id' ` set (concat (map removedPost
                                 (newlyDispatched w (snd (removePost E post w)))))"
      unfolding dr rr by simp
  qed
  show ?thesis
    by (intro conjI d dr r k4 k5)
qed

lemma storedMembers_example:
  "storedMembers (storeOf [''a'', ''c'']) [''a'', ''b'', ''c'']
     = [mkPost ''a'' ''bob'' ''joined'', mkPost ''c'' ''bob'' ''joined'']"
  by (simp add: storedMembers_def storeOf_def getPost_selector_def List.map_filter_simps)

lemma memberIds_combined: "memberIds modelEnv (combined i ids) = Some ids"
  by (simp add: memberIds_def combined_def modelEnv_def)

text \<open>
  C4 as stated fails where a member is not cached: with members a, b, c and a store
  holding only a and c, two deletes are issued, not three.
\<close>

theorem combined_fanout_counterexample:
  "memberIds modelEnv (combined ''abc'' [''a'', ''b'', ''c'']) = Some [''a'', ''b'', ''c'']
   \<and> deleteRequests (dispatched (snd (deletePost modelEnv (combined ''abc'' [''a'', ''b'', ''c''])
                                       (world (storeOf [''a'', ''c''])))))
       = [Some ''a'', Some ''c'']"
proof -
  have "dispatched (snd (deletePost modelEnv (combined ''abc'' [''a'', ''b'', ''c''])
                          (world (storeOf [''a'', ''c'']))))
          = map (\<lambda>sp. deleteOffline (asExtendedPost sp))
              [mkPost ''a'' ''bob'' ''joined'', mkPost ''c'' ''bob'' ''joined'']"
    using deletePost_combined [OF memberIds_combined [of "''abc''" "[''a'', ''b'', ''c'']"],
            where w = "world (storeOf [''a'', ''c''])"]
    by (simp add: world_def storedMembers_example)
  then show ?thesis
    by (simp add: memberIds_combined deleteRequests_def deleteOffline_def Let_def
          id_asExtendedPost mkPost_def)
qed

theorem combined_fanout_witness:
  "memberIds modelEnv (combined ''abc'' [''a'', ''b'', ''c'']) = Some [''a'', ''b'', ''c'']
   \<and> keyedById (storeOf [''a'', ''b'', ''c'']) [''a'', ''b'', ''c'']
   \<and> deleteRequests (newlyDispatched (world (storeOf [''a'', ''b'', ''c'']))
        (snd (deletePost modelEnv (combined ''abc'' [''a'', ''b'', ''c''])
               (world (storeOf [''a'', ''b'', ''c''])))))
       = [Some ''a'', Some ''b'', Some ''c'']
   \<and> map id' (concat (map removedPost (newlyDispatched (world (storeOf [''a'', ''b'', ''c'']))
        (snd (removePost modelEnv (combined ''abc'' [''a'', ''b'', ''c''])
               (world (storeOf [''a'', ''b'', ''c''])))))))
       = [Some ''a'', Some ''b'', Some ''c'']"
proof -
  let ?W = "world (storeOf [''a'', ''b'', ''c''])"
  let ?C = "combined ''abc'' [''a'', ''b'', ''c'']"
  have m: "memberIds modelEnv ?C = Some [''a'', ''b'', ''c'']"
    by (rule memberIds_combined)
  have k: "keyedById (store_state ?W) [''a'', ''b'', ''c'']"
    by (simp add: world_def keyedById_def storeOf_def getPost_selector_def mkPost_def)
  have f: "filter (\<lambda>i. getPost_selector (store_state ?W) i \<noteq> None) [''a'', ''b'', ''c'']
             = [''a'', ''b'', ''c'']"
    by (simp add: world_def storeOf_def getPost_selector_def)
  have "deleteRequests (newlyDispatched ?W (snd (deletePost modelEnv ?C ?W)))
          = map Some [''a'', ''b'', ''c'']
        \<and> map id' (concat (map removedPost (newlyDispatched ?W (snd (removePost modelEnv ?C ?W)))))
          = map Some [''a'', ''b'', ''c'']"
    using combined_fanout [OF m, where w = ?W, THEN conjunct2, THEN conjunct2,
            THEN conjunct2, THEN conjunct1, THEN mp, OF k]
    unfolding f .
  moreover have "keyedById (storeOf [''a'', ''b'', ''c'']) [''a'', ''b'', ''c'']"
    using k by (simp add: world_def)
  ultimately show ?thesis
    using m by simp
qed

subsection \<open>What the thunks return\<close>

text \<open>
  C9. \<^verbatim>\<open>removePost\<close> has no \<^verbatim>\<open>return\<close> statement: on every path it gives
  back \<^verbatim>\<open>undefined\<close>, neither \<^verbatim>\<open>{data}\<close> nor \<^verbatim>\<open>{error}\<close>, while its
  sibling \<^verbatim>\<open>deletePost\<close> returns \<^verbatim>\<open>{data: true}\<close> and \<^verbatim>\<open>getPost\<close>,
  \<^verbatim>\<open>addReaction\<close> and \<^verbatim>\<open>removeReaction\<close> return \<^verbatim>\<open>{data}\<close> or
  \<^verbatim>\<open>{error}\<close> however the remote call settles.
\<close>

theorem removePost_returns_undefined:
  "fst (removePost E post w) = Undefined
   \<and> \<not> isActionResult (fst (removePost E post w))
   \<and> fst (deletePost E post w) = Data PTrue
   \<and> isActionResult (fst (getPost E postId response w))
   \<and> isActionResult (fst (addReaction E postId emojiName added w))
   \<and> isActionResult (fst (removeReaction E postId emojiName removed w))"
proof -
  have r: "fst (removePost E post w) = Undefined"
    by (subst removePost.simps) simp
  have d: "fst (deletePost E post w) = Data PTrue"
    by (subst deletePost.simps) (simp add: Let_def)
  have g: "isActionResult (fst (getPost E postId response w))"
    by (cases response)
       (simp_all add: getPost_def getPost_failure_def Let_def isActionResult_def
          prefetch_never_throws)
  have a: "isActionResult (fst (addReaction E postId emojiName added w))"
    by (cases added) (simp_all add: addReaction_def Let_def isActionResult_def)
  have m: "isActionResult (fst (removeReaction E postId emojiName removed w))"
    by (cases removed) (simp_all add: removeReaction_def Let_def isActionResult_def)
  show ?thesis
    using r d g a m by (simp add: isActionResult_def)
qed

theorem removePost_returns_undefined_witness:
  "fst (removePost modelEnv (asExtendedPost (mkPost ''p1'' ''me'' ''hello'')) (world emptyState))
     = Undefined
   \<and> fst (deletePost modelEnv (asExtendedPost (mkPost ''p1'' ''me'' ''hello'')) (world emptyState))
     = Data PTrue"
  using removePost_returns_undefined [where E = modelEnv
      and post = "asExtendedPost (mkPost ''p1'' ''me'' ''hello'')" and w = "world emptyState"
      and postId = "''p1''" and response = "Inr (mkPost ''p1'' ''me'' ''hello'')"
      and emojiName = "''smile''"
      and added = "Inl boom" and removed = "Inl boom"]
  by simp

subsection \<open>The read/unread policy for an inbound post\<close>

text \<open>
  C6. For an inbound post that the ignore predicate does not match, after the batch of
  the new-post receipt and the stop-typing signal: if the author is the current user
  and the post is neither a system message nor from a webhook, the channel is marked
  read without notifying the server; else if the channel is the focused one, it is
  marked read with server notification; otherwise it is marked unread with the team
  and the mentions of the event. The first branch does not look at the focus: such an
  own-authored post marks its channel read whether or not the channel is focused. An
  ignored post stops after the batch.
\<close>

theorem read_unread_policy:
  "(shouldIgnorePost E post \<longrightarrow>
      newlyDispatched w (snd (lastPostActions E post ws now w))
        = [batchActions [RECEIVED_NEW_POST post,
             STOP_TYPING (channel_id post @ root_id post) (user_id post) now]])
   \<and> (\<not> shouldIgnorePost E post \<longrightarrow>
      newlyDispatched w (snd (lastPostActions E post ws now w))
        = batchActions [RECEIVED_NEW_POST post,
            STOP_TYPING (channel_id post @ root_id post) (user_id post) now]
          # (if user_id post = currentUserId (store_state w)
                 \<and> \<not> isSystemMessage E post \<and> \<not> isFromWebhook E post
             then [markChannelAsRead (channel_id post) False,
                   markChannelAsViewed (channel_id post)]
             else if channel_id post = currentChannelId (store_state w)
             then [markChannelAsRead (channel_id post) True,
                   markChannelAsViewed (channel_id post)]
             else [markChannelAsUnread (team_id ws) (channel_id post) (mentions ws)]))
   \<and> (\<not> shouldIgnorePost E post \<and> user_id post = currentUserId (store_state w)
        \<and> \<not> isSystemMessage E post \<and> \<not> isFromWebhook E post
        \<and> channel_id post \<noteq> currentChannelId (store_state w) \<longrightarrow>
      newlyDispatched w (snd (lastPostActions E post ws now w))
        = [batchActions [RECEIVED_NEW_POST post,
             STOP_TYPING (channel_id post @ root_id post) (user_id post) now],
           markChannelAsRead (channel_id post) False,
           markChannelAsViewed (channel_id post)])"
  by (simp add: lastPostActions_def Let_def newlyDispatched_def dispatched_dispatch
        receivedNewPost_def)

theorem read_unread_policy_witness:
  "\<not> shouldIgnorePost modelEnv ((mkPost ''p8'' ''me'' ''hello'')\<lparr>channel_id := ''other''\<rparr>)
   \<and> channel_id ((mkPost ''p8'' ''me'' ''hello'')\<lparr>channel_id := ''other''\<rparr>)
       \<noteq> currentChannelId emptyState
   \<and> newlyDispatched (world emptyState)
        (snd (lastPostActions modelEnv ((mkPost ''p8'' ''me'' ''hello'')\<lparr>channel_id := ''other''\<rparr>)
                wsProps 5 (world emptyState)))
       = [batchActions [RECEIVED_NEW_POST ((mkPost ''p8'' ''me'' ''hello'')\<lparr>channel_id := ''other''\<rparr>),
            STOP_TYPING ''other'' ''me'' 5],
          markChannelAsRead ''other'' False, markChannelAsViewed ''other'']
   \<and> newlyDispatched (world emptyState)
        (snd (lastPostActions modelEnv (mkPost ''p7'' ''bob'' ''hello'') wsProps 5 (world emptyState)))
       = [batchActions [RECEIVED_NEW_POST (mkPost ''p7'' ''bob'' ''hello''),
            STOP_TYPING ''town'' ''bob'' 5],
          markChannelAsRead ''town'' True, markChannelAsViewed ''town'']
   \<and> newlyDispatched (world emptyState)
        (snd (lastPostActions modelEnv ((mkPost ''p6'' ''bob'' ''hello'')\<lparr>channel_id := ''other''\<rparr>)
                wsProps 5 (world emptyState)))
       = [batchActions [RECEIVED_NEW_POST ((mkPost ''p6'' ''bob'' ''hello'')\<lparr>channel_id := ''other''\<rparr>),
            STOP_TYPING ''other'' ''bob'' 5],
          markChannelAsUnread ''team'' ''other'' (Some ''[]'')]"
  using read_unread_policy [where E = modelEnv
      and post = "(mkPost ''p8'' ''me'' ''hello'')\<lparr>channel_id := ''other''\<rparr>"
      and ws = wsProps and now = 5 and w = "world emptyState"]
    read_unread_policy [where E = modelEnv
      and post = "mkPost ''p7'' ''bob'' ''hello''"
      and ws = wsProps and now = 5 and w = "world emptyState"]
    read_unread_policy [where E = modelEnv
      and post = "(mkPost ''p6'' ''bob'' ''hello'')\<lparr>channel_id := ''other''\<rparr>"
      and ws = wsProps and now = 5 and w = "world emptyState"]
  by (simp add: mkPost_def emptyState_def modelEnv_def hasPrefix_def world_def wsProps_def)

subsection \<open>Sending a post\<close>

lemma string_of_nat_1500: "string_of_nat 1500 = ''1500''"
  by code_simp

text \<open>
  C1. The pending identifier of \<^verbatim>\<open>createPost\<close> is the supplied
  \<^verbatim>\<open>pending_post_id\<close> when the draft has one (a non-empty string), and otherwise
  the current user id, a colon and the timestamp. When the pending-send record marks
  that identifier as sending, \<^verbatim>\<open>createPost\<close> returns \<^verbatim>\<open>{data: true}\<close> and
  leaves the store as it was: nothing is dispatched, so no optimistic update and no
  request. When it is not marked (and no file lookup throws), the result is the same
  \<^verbatim>\<open>{data: true}\<close>, and the call dispatches the optimistic action, whose effect is
  the one request \<^verbatim>\<open>Client4.createPost\<close>.
\<close>

theorem createPost_dedup:
  "(pending_post_id post = Some p \<and> p \<noteq> [] \<longrightarrow>
      pendingPostIdOf (currentUserId (store_state w)) timestamp post = p)
   \<and> (pending_post_id post = None \<or> pending_post_id post = Some [] \<longrightarrow>
      pendingPostIdOf (currentUserId (store_state w)) timestamp post
        = currentUserId (store_state w) @ '':'' @ string_of_nat timestamp)
   \<and> (isPostIdSending (store_state w)
         (pendingPostIdOf (currentUserId (store_state w)) timestamp post) \<longrightarrow>
      createPost E post files timestamp w = (Data PTrue, w))
   \<and> (\<not> isPostIdSending (store_state w)
           (pendingPostIdOf (currentUserId (store_state w)) timestamp post)
        \<and> fst (createPost E post files timestamp w) \<noteq> Throws TypeError \<longrightarrow>
      fst (createPost E post files timestamp w) = Data PTrue
      \<and> (\<exists>newPost fs.
            last (dispatched (snd (createPost E post files timestamp w)))
              = optimisticPost newPost
                  (pendingPostIdOf (currentUserId (store_state w)) timestamp post) fs
            \<and> concat (map effectsOf (newlyDispatched w (snd (createPost E post files timestamp w))))
              = [Client4_createPost (newPost\<lparr>create_at := 0\<rparr>)]
            \<and> pending_post_id newPost
              = Some (pendingPostIdOf (currentUserId (store_state w)) timestamp post)
            \<and> create_at newPost = timestamp \<and> update_at newPost = timestamp))"
proof (intro conjI impI)
  assume "pending_post_id post = Some p \<and> p \<noteq> []"
  then show "pendingPostIdOf (currentUserId (store_state w)) timestamp post = p"
    by (simp add: pendingPostIdOf_def)
next
  assume "pending_post_id post = None \<or> pending_post_id post = Some []"
  then show "pendingPostIdOf (currentUserId (store_state w)) timestamp post
        = currentUserId (store_state w) @ '':'' @ string_of_nat timestamp"
    by (auto simp: pendingPostIdOf_def)
next
  assume "isPostIdSending (store_state w)
         (pendingPostIdOf (currentUserId (store_state w)) timestamp post)"
  then show "createPost E post files timestamp w = (Data PTrue, w)"
    by (simp add: createPost_def Let_def)
next
  assume a: "\<not> isPostIdSending (store_state w)
           (pendingPostIdOf (currentUserId (store_state w)) timestamp post)
        \<and> fst (createPost E post files timestamp w) \<noteq> Throws TypeError"
  then show "fst (createPost E post files timestamp w) = Data PTrue"
    by (auto simp: createPost_def Let_def split: option.splits if_splits)
  from a show "\<exists>newPost fs.
            last (dispatched (snd (createPost E post files timestamp w)))
              = optimisticPost newPost
                  (pendingPostIdOf (currentUserId (store_state w)) timestamp post) fs
            \<and> concat (map effectsOf (newlyDispatched w (snd (createPost E post files timestamp w))))
              = [Client4_createPost (newPost\<lparr>create_at := 0\<rparr>)]
            \<and> pending_post_id newPost
              = Some (pendingPostIdOf (currentUserId (store_state w)) timestamp post)
            \<and> create_at newPost = timestamp \<and> update_at newPost = timestamp"
    by (auto simp: createPost_def Let_def dispatched_dispatch newlyDispatched_def
          optimisticPost_def split: option.splits if_splits)
qed

theorem createPost_dedup_witness:
  "isPostIdSending (sendingState [''me:1500'']) ''me:1500''
   \<and> createPost modelEnv (draft None) [] 1500 (world (sendingState [''me:1500'']))
       = (Data PTrue, world (sendingState [''me:1500'']))
   \<and> createPost modelEnv (draft (Some ''me:7'')) [] 1500 (world (sendingState [''me:7'']))
       = (Data PTrue, world (sendingState [''me:7'']))"
proof -
  have p1: "pendingPostIdOf (currentUserId (store_state (world (sendingState [''me:1500'']))))
              1500 (draft None) = ''me:1500''"
    by (simp add: pendingPostIdOf_def draft_def world_def sendingState_def emptyState_def
          string_of_nat_1500)
  have p2: "pendingPostIdOf (currentUserId (store_state (world (sendingState [''me:7'']))))
              1500 (draft (Some ''me:7'')) = ''me:7''"
    by (simp add: pendingPostIdOf_def draft_def)
  have s1: "isPostIdSending (store_state (world (sendingState [''me:1500'']))) ''me:1500''"
    by (simp add: isPostIdSending_def world_def sendingState_def)
  have s2: "isPostIdSending (store_state (world (sendingState [''me:7'']))) ''me:7''"
    by (simp add: isPostIdSending_def world_def sendingState_def)
  have c1: "createPost modelEnv (draft None) [] 1500 (world (sendingState [''me:1500'']))
       = (Data PTrue, world (sendingState [''me:1500'']))"
    using createPost_dedup [where post = "draft None" and timestamp = 1500 and E = modelEnv
        and files = "[]" and w = "world (sendingState [''me:1500''])",
        THEN conjunct2, THEN conjunct2, THEN conjunct1, THEN mp] s1
    unfolding p1 by simp
  have c2: "createPost modelEnv (draft (Some ''me:7'')) [] 1500 (world (sendingState [''me:7'']))
       = (Data PTrue, world (sendingState [''me:7'']))"
    using createPost_dedup [where post = "draft (Some ''me:7'')" and timestamp = 1500
        and E = modelEnv and files = "[]" and w = "world (sendingState [''me:7''])",
        THEN conjunct2, THEN conjunct2, THEN conjunct1, THEN mp] s2
    unfolding p2 by simp
  show ?thesis
    using c1 c2 s1 by (simp add: world_def)
qed






end
